theory Spec2Isabelle
  imports Main "HOL-Library.Sublist"
begin

section \<open>JavaScript values, objects and strings\<close>

text \<open>
  Cell values are typed \<open>any\<close> in the source. The model keeps the values the code
  distinguishes: \<open>undefined\<close>, \<open>null\<close>, booleans, numbers and strings, and the objects a
  property read on a plain object can find on \<open>Object.prototype\<close>: \<open>JBuiltin k\<close> is the
  member of \<open>Object.prototype\<close> named \<open>k\<close> (a function; for \<open>__proto__\<close> the accessor's
  result, \<open>Object.prototype\<close> itself). Numbers are restricted to integers (no NaN, no
  fractions); strings are lists of 8-bit characters, one per UTF-16 code unit, so the
  model covers code units up to 255.
\<close>

datatype jsval = JUndefined | JNull | JBool bool | JNum int | JStr string | JBuiltin string

text \<open>JavaScript truthiness, as used by \<open>||\<close> and \<open>!\<close>.\<close>

fun truthy :: "jsval \<Rightarrow> bool" where
  "truthy JUndefined = False"
| "truthy JNull = False"
| "truthy (JBool b) = b"
| "truthy (JNum n) = (n \<noteq> 0)"
| "truthy (JStr s) = (s \<noteq> [])"
| "truthy (JBuiltin k) = True"

text \<open>\<open>a || b\<close> on values.\<close>

definition js_or :: "jsval \<Rightarrow> jsval \<Rightarrow> jsval" where
  "js_or a b = (if truthy a then a else b)"

text \<open>The names of the members of \<open>Object.prototype\<close>.\<close>

definition protoMembers :: "string list" where
  "protoMembers =
     [''constructor'', ''__defineGetter__'', ''__defineSetter__'', ''hasOwnProperty'',
      ''__lookupGetter__'', ''__lookupSetter__'', ''isPrototypeOf'', ''propertyIsEnumerable'',
      ''toString'', ''valueOf'', ''__proto__'', ''toLocaleString'']"

text \<open>
  An object holding values (a formatted row, the cells of one row of \<open>cellData\<close>): its own
  properties, in insertion order with one pair per key, and its prototype. The prototype
  is \<open>Object.prototype\<close> for an object literal; an assignment to \<open>__proto__\<close> can make it
  \<open>null\<close> or, when the value assigned is itself a member of \<open>Object.prototype\<close>, that
  built-in function (\<open>BuiltinPrototype k\<close> for the member named \<open>k\<close>). The code reads
  such objects by key only, so the place JavaScript gives keys that look like array
  indices plays no role.
\<close>

datatype prototype = ObjectPrototype | NullPrototype | BuiltinPrototype string

text \<open>The prototype is \<open>Object.prototype\<close> or \<open>null\<close>.\<close>

definition ordinary :: "prototype \<Rightarrow> bool" where
  "ordinary p = (case p of BuiltinPrototype k \<Rightarrow> False | ObjectPrototype \<Rightarrow> True | NullPrototype \<Rightarrow> True)"

record jsrow =
  own :: "(string \<times> jsval) list"
  protoOf :: prototype

definition plain :: "(string \<times> jsval) list \<Rightarrow> jsrow" where
  "plain props = \<lparr>own = props, protoOf = ObjectPrototype\<rparr>"

text \<open>
  \<open>obj[k]\<close>: an own property, else what the prototype chain has under the name. Below a
  built-in function the chain is the function, \<open>Function.prototype\<close> and
  \<open>Object.prototype\<close>: \<open>__proto__\<close> reads as the function, through the accessor. What the
  function and \<open>Function.prototype\<close> hold (\<open>name\<close>, \<open>length\<close>, \<open>call\<close>, their own
  \<open>constructor\<close> and \<open>toString\<close>, ...) depends on the engine and is not modelled: for
  every other name the read is given as on \<open>Object.prototype\<close>, and every statement
  below about a value read through a prototype is restricted to objects whose prototype
  is \<open>ordinary\<close>.
\<close>

definition obj_get :: "jsrow \<Rightarrow> string \<Rightarrow> jsval" where
  "obj_get obj k =
     (case map_of (own obj) k of
        Some v \<Rightarrow> v
      | None \<Rightarrow>
          (case protoOf obj of
             NullPrototype \<Rightarrow> JUndefined
           | ObjectPrototype \<Rightarrow> if k \<in> set protoMembers then JBuiltin k else JUndefined
           | BuiltinPrototype m \<Rightarrow>
               if k = ''__proto__'' then JBuiltin m
               else if k \<in> set protoMembers then JBuiltin k else JUndefined))"

text \<open>Assignment to an own property: an existing key keeps its position, a new key is
  appended.\<close>

fun put :: "(string \<times> 'v) list \<Rightarrow> string \<Rightarrow> 'v \<Rightarrow> (string \<times> 'v) list" where
  "put [] k v = [(k, v)]"
| "put ((k', v') # props) k v =
     (if k' = k then (k, v) # props else (k', v') # put props k v)"

text \<open>
  \<open>obj[k] = v\<close>. Every member of \<open>Object.prototype\<close> but \<open>__proto__\<close> is a writable data
  property, so the assignment makes an own property. \<open>__proto__\<close> is an accessor: while
  the object has no own property of that name and \<open>Object.prototype\<close> is on its chain,
  the assignment calls the setter, which makes no own property. The setter sets the
  prototype to \<open>null\<close> for \<open>null\<close>, to the object for an object (here a member of
  \<open>Object.prototype\<close>, where \<open>JBuiltin ''__proto__''\<close> is \<open>Object.prototype\<close> itself), and
  does nothing for \<open>undefined\<close>, a boolean, a number or a string. An object whose
  prototype is \<open>null\<close> has no setter on its chain and gets an own property \<open>__proto__\<close>.
\<close>

definition setPrototype :: "prototype \<Rightarrow> jsval \<Rightarrow> prototype" where
  "setPrototype p v =
     (case v of
        JNull \<Rightarrow> NullPrototype
      | JBuiltin m \<Rightarrow> if m = ''__proto__'' then ObjectPrototype else BuiltinPrototype m
      | JUndefined \<Rightarrow> p
      | JBool b \<Rightarrow> p
      | JNum n \<Rightarrow> p
      | JStr s \<Rightarrow> p)"

definition obj_set :: "jsrow \<Rightarrow> string \<Rightarrow> jsval \<Rightarrow> jsrow" where
  "obj_set obj k v =
     (if k = ''__proto__'' \<and> map_of (own obj) k = None \<and> protoOf obj \<noteq> NullPrototype then
        \<lparr>own = own obj, protoOf = setPrototype (protoOf obj) v\<rparr>
      else \<lparr>own = put (own obj) k v, protoOf = protoOf obj\<rparr>)"

text \<open>
  \<open>bulkData\<close> is an object holding arrays, of which the code observes the own properties
  only (\<open>Object.keys\<close>, \<open>Object.values\<close>, reads of keys it has just assigned): it is the
  list of its own properties. \<open>bulkData[k] = []\<close> makes an own property unless \<open>k\<close> is
  \<open>__proto__\<close>, where the setter installs the array as prototype and the object gets no
  key. The ids the merger assigns contain an underscore, so none looks like an array
  index.
\<close>

type_synonym 'v jsobj = "(string \<times> 'v) list"

definition data_set :: "'v jsobj \<Rightarrow> string \<Rightarrow> 'v \<Rightarrow> 'v jsobj" where
  "data_set obj k v =
     (if k = ''__proto__'' \<and> map_of obj k = None then obj else put obj k v)"

text \<open>Decimal rendering of a non-negative integer inside a template string.\<close>

definition digit_char :: "nat \<Rightarrow> char" where
  "digit_char d = ''0123456789'' ! d"

fun decimal :: "nat \<Rightarrow> string" where
  "decimal n = (if n < 10 then [digit_char n] else decimal (n div 10) @ [digit_char (n mod 10)])"

declare decimal.simps [simp del]

text \<open>The errors the code raises. The spec calls the first two \<open>NoDataError\<close> and the
  third \<open>NameGenerationExhausted\<close>.\<close>

datatype error =
    NoFormattedData          \<comment> \<open>'No formatted data provided for sheet creation'\<close>
  | NoValidColumns           \<comment> \<open>'No valid columns found in formatted data'\<close>
  | NameExhausted nat        \<comment> \<open>'Could not generate unique table name after N attempts'\<close>
  | EmptySheetName           \<comment> \<open>'Sheet name cannot be empty'\<close>
  | TypeError                \<comment> \<open>a property read on \<open>null\<close> or \<open>undefined\<close>\<close>
  | HostError string         \<comment> \<open>a rejection or exception raised by the host document\<close>

definition is_NoDataError :: "error \<Rightarrow> bool" where
  "is_NoDataError e = (e = NoFormattedData \<or> e = NoValidColumns)"

section \<open>SheetCreationUtils: the table-name resolver\<close>

text \<open>
  \<open>_generateUniqueTableName(gristDoc, baseTableName, maxRetries = 10)\<close>. The document
  is consulted only through
  \<open>gristDoc.docModel.tables.rowModels.find(t => t.tableId.peek() === tableName)\<close>, so
  the model takes the list of table records in its place; \<open>maxRetries\<close> is a
  non-negative integer.
\<close>

record MetaTableRec =
  tableId_peek :: string
  rawViewSectionRef_peek :: nat

definition findTable :: "MetaTableRec list \<Rightarrow> string \<Rightarrow> MetaTableRec option" where
  "findTable rowModels name = find (\<lambda>t. tableId_peek t = name) rowModels"

text \<open>The \<open>while (counter <= maxRetries)\<close> loop, with its two variables as arguments.\<close>

function uniqueNameLoop ::
  "MetaTableRec list \<Rightarrow> string \<Rightarrow> nat \<Rightarrow> nat \<Rightarrow> string \<Rightarrow> error + string" where
  "uniqueNameLoop rowModels baseTableName maxRetries counter tableName =
     (if counter \<le> maxRetries then
        (if findTable rowModels tableName = None then Inr tableName
         else uniqueNameLoop rowModels baseTableName maxRetries (counter + 1)
                (baseTableName @ ''_'' @ decimal counter))
      else Inl (NameExhausted maxRetries))"
  by pat_completeness auto
termination
  by (relation "measure (\<lambda>(rowModels, baseTableName, maxRetries, counter, tableName).
        maxRetries + 1 - counter)") auto

declare uniqueNameLoop.simps [simp del]

definition generateUniqueTableName ::
  "MetaTableRec list \<Rightarrow> string \<Rightarrow> nat \<Rightarrow> error + string" where
  "generateUniqueTableName rowModels baseTableName maxRetries =
     uniqueNameLoop rowModels baseTableName maxRetries 1 baseTableName"

text \<open>The candidates in the order the loop tests them: the base name, then the base name
  with the suffixes \<open>_1\<close>, \<open>_2\<close>, ...; \<open>n\<close> candidates in all.\<close>

definition suffixed :: "string \<Rightarrow> nat \<Rightarrow> string" where
  "suffixed base k = base @ ''_'' @ decimal k"

definition candidates :: "string \<Rightarrow> nat \<Rightarrow> string list" where
  "candidates base n = (if n = 0 then [] else base # map (suffixed base) [1..<n])"

definition tableExists :: "MetaTableRec list \<Rightarrow> string \<Rightarrow> bool" where
  "tableExists rowModels name = (findTable rowModels name \<noteq> None)"

definition tablesNamed :: "string list \<Rightarrow> MetaTableRec list" where
  "tablesNamed names = map (\<lambda>n. \<lparr>tableId_peek = n, rawViewSectionRef_peek = 1\<rparr>) names"

section \<open>SheetCreationUtils: the layout merger\<close>

record IColumnInfo =
  col_id :: string
  col_label :: string
  col_type :: string

type_synonym IBulkData = "jsval list jsobj"

text \<open>
  One element of \<open>formattedData\<close>, as \<open>getFormattedData\<close> builds it. \<open>headers\<close> is \<open>None\<close>
  when the property is absent or not an array, and so is \<open>data\<close>; a row is an object
  keyed by header. \<open>fmt_timestamp\<close> stands for the locale rendering of the capture
  time, which the merger never reads.
\<close>

record FormattedEntry =
  fmt_id :: string
  sheet :: string
  table :: string
  fmt_timestamp :: int
  rowCount :: nat
  columnCount :: nat
  headers :: "string list option"
  data :: "jsrow list option"

text \<open>\<open>Math.max(...formattedData.map(entry => entry.rowCount || 0))\<close> on a non-empty array
  of non-negative counts.\<close>

definition maxRowCount :: "FormattedEntry list \<Rightarrow> nat" where
  "maxRowCount formattedData = fold max (map rowCount formattedData) 0"

text \<open>\<open>tableName.replace(/[^a-zA-Z0-9_]/g, '_')\<close>.\<close>

definition isWordChar :: "char \<Rightarrow> bool" where
  "isWordChar c = (c \<in> set (''abcdefghijklmnopqrstuvwxyz'' @ ''ABCDEFGHIJKLMNOPQRSTUVWXYZ''
                              @ ''0123456789_''))"

definition safeName :: "string \<Rightarrow> string" where
  "safeName tableName = map (\<lambda>c. if isWordChar c then c else CHR ''_'') tableName"

text \<open>The state the two nested loops update: the local variables \<open>columns\<close>, \<open>bulkData\<close>
  and \<open>usedColumnIds\<close> (a \<open>Set\<close>, of which only \<open>has\<close> and \<open>add\<close> are used).\<close>

record MergeState =
  columns_acc :: "IColumnInfo list"
  bulkData_acc :: IBulkData
  usedColumnIds :: "string list"

text \<open>Decimal rendering is injective; the termination of the suffix loop rests on it.\<close>

lemma decimal_small: "n < 10 \<Longrightarrow> decimal n = [digit_char n]"
  by (subst decimal.simps) simp

lemma decimal_large: "\<not> n < 10 \<Longrightarrow> decimal n = decimal (n div 10) @ [digit_char (n mod 10)]"
  by (subst decimal.simps) simp

lemma digit_char_inj: "a < 10 \<Longrightarrow> b < 10 \<Longrightarrow> digit_char a = digit_char b \<Longrightarrow> a = b"
proof -
  assume a: "a < 10" and b: "b < 10" and e: "digit_char a = digit_char b"
  have d: "distinct ''0123456789''" by simp
  have "length ''0123456789'' = 10" by simp
  with a b e d show ?thesis
    unfolding digit_char_def by (metis nth_eq_iff_index_eq)
qed

lemma decimal_nonempty: "decimal n \<noteq> []"
  by (subst decimal.simps) simp

lemma decimal_inj: "decimal n = decimal m \<Longrightarrow> n = m"
proof (induction n arbitrary: m rule: less_induct)
  case (less n)
  show ?case
  proof (cases "n < 10")
    case True
    show ?thesis
    proof (cases "m < 10")
      case m: True
      from less.prems True m show ?thesis
        by (simp add: decimal_small digit_char_inj)
    next
      case m: False
      from less.prems True m decimal_nonempty [of "m div 10"] show ?thesis
        by (simp add: decimal_small decimal_large)
    qed
  next
    case False
    show ?thesis
    proof (cases "m < 10")
      case m: True
      from less.prems False m decimal_nonempty [of "n div 10"] show ?thesis
        by (simp add: decimal_small decimal_large)
    next
      case m: False
      from less.prems False m
      have e: "decimal (n div 10) = decimal (m div 10)"
        and d: "digit_char (n mod 10) = digit_char (m mod 10)"
        by (simp_all add: decimal_large)
      from False have "n div 10 < n" by simp
      from less.IH [OF this e] have q: "n div 10 = m div 10" .
      from d have r: "n mod 10 = m mod 10" by (simp add: digit_char_inj)
      from q r show ?thesis by (metis div_mult_mod_eq)
    qed
  qed
qed

lemma suffixed_inj: "suffixed base j = suffixed base k \<Longrightarrow> j = k"
  by (simp add: suffixed_def decimal_inj)

lemma finite_suffixes: "finite {k. suffixed base k \<in> set used}"
proof -
  have "inj (suffixed base)" by (rule injI) (rule suffixed_inj)
  then have "finite (suffixed base -` set used)" by (simp add: finite_vimageI)
  then show ?thesis by (simp add: vimage_def)
qed

text \<open>The suffixes from \<open>counter\<close> on that are taken.\<close>

definition takenFrom :: "string list \<Rightarrow> string \<Rightarrow> nat \<Rightarrow> nat set" where
  "takenFrom used base counter = {k. counter \<le> k \<and> suffixed base k \<in> set used}"

lemma finite_takenFrom: "finite (takenFrom used base counter)"
  by (rule finite_subset [OF _ finite_suffixes [of base used]]) (auto simp: takenFrom_def)

lemma takenFrom_step:
  "(if suffixed base counter \<in> set used then 1 else 0) + card (takenFrom used base (Suc counter))
     = card (takenFrom used base counter)"
proof (cases "suffixed base counter \<in> set used")
  case True
  then have "takenFrom used base counter = insert counter (takenFrom used base (Suc counter))"
    by (auto simp: takenFrom_def Suc_le_eq order_le_less)
  moreover have "counter \<notin> takenFrom used base (Suc counter)"
    by (simp add: takenFrom_def)
  ultimately show ?thesis using True finite_takenFrom [of used base "Suc counter"] by simp
next
  case False
  then have "takenFrom used base counter = takenFrom used base (Suc counter)"
    by (auto simp: takenFrom_def Suc_le_eq order_le_less)
  with False show ?thesis by simp
qed

text \<open>
  The \<open>while (usedColumnIds.has(columnId))\<close> loop: \<open>columnId\<close>, \<open>columnLabel\<close> and
  \<open>counter\<close> are its variables; \<open>baseColumnId\<close> is the id's stem and \<open>labelStem\<close> stands
  for the \<open>`${prefix}${header}`\<close> the label is rebuilt from.
\<close>

function columnIdLoop ::
  "string list \<Rightarrow> string \<Rightarrow> string \<Rightarrow> string \<Rightarrow> string \<Rightarrow> nat \<Rightarrow> string \<times> string" where
  "columnIdLoop used baseColumnId labelStem columnId columnLabel counter =
     (if columnId \<in> set used then
        columnIdLoop used baseColumnId labelStem (suffixed baseColumnId counter)
          (suffixed labelStem counter) (counter + 1)
      else (columnId, columnLabel))"
  by pat_completeness auto
termination
proof (relation "measure (\<lambda>(used, baseColumnId, labelStem, columnId, columnLabel, counter).
        (if columnId \<in> set used then 1 else 0) + card (takenFrom used baseColumnId counter))")
  show "wf (measure (\<lambda>(used, baseColumnId, labelStem, columnId, columnLabel, counter).
        (if columnId \<in> set used then 1 else 0) + card (takenFrom used baseColumnId counter)))"
    by simp
next
  fix used :: "string list" and baseColumnId labelStem columnId columnLabel :: string
    and counter :: nat
  assume "columnId \<in> set used"
  then show "((used, baseColumnId, labelStem, suffixed baseColumnId counter,
               suffixed labelStem counter, counter + 1),
              (used, baseColumnId, labelStem, columnId, columnLabel, counter))
        \<in> measure (\<lambda>(used, baseColumnId, labelStem, columnId, columnLabel, counter).
        (if columnId \<in> set used then 1 else 0) + card (takenFrom used baseColumnId counter))"
    using takenFrom_step [of baseColumnId counter used] by simp
qed

declare columnIdLoop.simps [simp del]

text \<open>The value pushed for one row of one column (the body of the innermost loop).\<close>

definition cellValue :: "FormattedEntry \<Rightarrow> string \<Rightarrow> nat \<Rightarrow> jsval" where
  "cellValue entry header rowIndex =
     (case data entry of
        None \<Rightarrow> JStr []
      | Some rows \<Rightarrow>
          if rowIndex < length rows then js_or (obj_get (rows ! rowIndex) header) (JStr [])
          else JStr [])"

text \<open>\<open>for (let rowIndex = 0; rowIndex < maxRows; rowIndex++) bulkData[columnId].push(value)\<close>;
  the last argument is the array being filled.\<close>

function fillColumn :: "FormattedEntry \<Rightarrow> string \<Rightarrow> nat \<Rightarrow> nat \<Rightarrow> jsval list \<Rightarrow> jsval list" where
  "fillColumn entry header maxRows rowIndex col =
     (if rowIndex < maxRows then
        fillColumn entry header maxRows (rowIndex + 1) (col @ [cellValue entry header rowIndex])
      else col)"
  by pat_completeness auto
termination
  by (relation "measure (\<lambda>(entry, header, maxRows, rowIndex, col). maxRows - rowIndex)") auto

declare fillColumn.simps [simp del]

text \<open>The body of \<open>for (const header of entry.headers)\<close>; \<open>pfx\<close> is the source's
  \<open>prefix\<close>.\<close>

definition addColumn :: "FormattedEntry \<Rightarrow> string \<Rightarrow> nat \<Rightarrow> string \<Rightarrow> MergeState \<Rightarrow> MergeState" where
  "addColumn entry pfx maxRows header st =
     (let baseColumnId = pfx @ header;
          (columnId, columnLabel) =
             columnIdLoop (usedColumnIds st) baseColumnId (pfx @ header)
               baseColumnId (pfx @ header) 1
      in \<lparr>columns_acc = columns_acc st @
             [\<lparr>col_id = columnId, col_label = columnLabel, col_type = ''Text''\<rparr>],
          bulkData_acc = data_set (bulkData_acc st) columnId (fillColumn entry header maxRows 0 []),
          usedColumnIds = usedColumnIds st @ [columnId]\<rparr>)"

fun headerLoop :: "FormattedEntry \<Rightarrow> string \<Rightarrow> nat \<Rightarrow> string list \<Rightarrow> MergeState \<Rightarrow> MergeState" where
  "headerLoop entry pfx maxRows [] st = st"
| "headerLoop entry pfx maxRows (header # rest) st =
     headerLoop entry pfx maxRows rest (addColumn entry pfx maxRows header st)"

text \<open>\<open>entry.table || `S${selectionIndex + 1}`\<close>, sanitized, with the trailing underscore.\<close>

definition columnPrefix :: "nat \<Rightarrow> FormattedEntry \<Rightarrow> string" where
  "columnPrefix selectionIndex entry =
     (let tableName = (if table entry \<noteq> [] then table entry
                       else ''S'' @ decimal (selectionIndex + 1))
      in safeName tableName @ ''_'')"

text \<open>The loop over \<open>selectionIndex\<close>; an entry without a headers array is skipped.\<close>

fun selectionLoop :: "nat \<Rightarrow> nat \<Rightarrow> FormattedEntry list \<Rightarrow> MergeState \<Rightarrow> MergeState" where
  "selectionLoop maxRows selectionIndex [] st = st"
| "selectionLoop maxRows selectionIndex (entry # rest) st =
     (case headers entry of
        None \<Rightarrow> selectionLoop maxRows (selectionIndex + 1) rest st
      | Some hs \<Rightarrow>
          selectionLoop maxRows (selectionIndex + 1) rest
            (headerLoop entry (columnPrefix selectionIndex entry) maxRows hs st))"

definition convertGlobalSelectionData ::
  "FormattedEntry list \<Rightarrow> error + (IColumnInfo list \<times> IBulkData)" where
  "convertGlobalSelectionData formattedData =
     (if formattedData = [] then Inl NoFormattedData
      else
        let maxRows = maxRowCount formattedData;
            st = selectionLoop maxRows 0 formattedData
                   \<lparr>columns_acc = [], bulkData_acc = [], usedColumnIds = []\<rparr>
        in if columns_acc st = [] then Inl NoValidColumns
           else Inr (columns_acc st, bulkData_acc st))"

text \<open>Notions the statements about the merger use.\<close>

definition headersOf :: "FormattedEntry \<Rightarrow> string list" where
  "headersOf entry = (case headers entry of None \<Rightarrow> [] | Some hs \<Rightarrow> hs)"

definition headerCount :: "FormattedEntry \<Rightarrow> nat" where
  "headerCount entry = length (headersOf entry)"

definition ownRows :: "FormattedEntry \<Rightarrow> nat" where
  "ownRows entry = (case data entry of None \<Rightarrow> 0 | Some rows \<Rightarrow> length rows)"

text \<open>For each column the merger emits, in order: the selection it comes from, its header
  and its candidate id. The first argument is the index of the first selection.\<close>

definition columnSources ::
  "nat \<Rightarrow> FormattedEntry list \<Rightarrow> (FormattedEntry \<times> string \<times> string) list" where
  "columnSources selectionIndex formattedData =
     concat (map (\<lambda>(k, entry). map (\<lambda>h. (entry, h, columnPrefix k entry @ h)) (headersOf entry))
                 (enumerate selectionIndex formattedData))"

text \<open>The id the suffix loop settles on for a candidate, and the ids it settles on for a
  sequence of candidates, each resolved against the ids before it.\<close>

definition resolveId :: "string list \<Rightarrow> string \<Rightarrow> string" where
  "resolveId used candidate =
     fst (columnIdLoop used candidate candidate candidate candidate 1)"

fun resolveAll :: "string list \<Rightarrow> string list \<Rightarrow> string list" where
  "resolveAll used [] = []"
| "resolveAll used (c # cs) = resolveId used c # resolveAll (used @ [resolveId used c]) cs"

text \<open>The candidate ids in the order the loops form them.\<close>

definition candidateIds :: "FormattedEntry list \<Rightarrow> string list" where
  "candidateIds formattedData =
     concat (map (\<lambda>(k, entry). map (\<lambda>h. columnPrefix k entry @ h) (headersOf entry))
                 (enumerate 0 formattedData))"

text \<open>The column record for a resolved id, the data of the column of one source, the pairs
  that become own properties of \<open>bulkData\<close>, and the state after the columns of a list of
  sources have been added; the loops are proved to compute \<open>addColumns\<close>.\<close>

definition mkColumn :: "string \<Rightarrow> IColumnInfo" where
  "mkColumn c = \<lparr>col_id = c, col_label = c, col_type = ''Text''\<rparr>"

definition columnData :: "nat \<Rightarrow> FormattedEntry \<times> string \<times> string \<Rightarrow> jsval list" where
  "columnData maxRows src = (case src of (entry, header, candidate) \<Rightarrow> map (cellValue entry header) [0..<maxRows])"

definition ownEntries :: "'v jsobj \<Rightarrow> 'v jsobj" where
  "ownEntries kvs = filter (\<lambda>kv. fst kv \<noteq> ''__proto__'') kvs"

definition addColumns :: "nat \<Rightarrow> (FormattedEntry \<times> string \<times> string) list \<Rightarrow> MergeState \<Rightarrow> MergeState" where
  "addColumns maxRows srcs st =
    (let ids = resolveAll (usedColumnIds st) (map (\<lambda>s. snd (snd s)) srcs)
     in \<lparr>columns_acc = columns_acc st @ map mkColumn ids,
         bulkData_acc = bulkData_acc st @ ownEntries (zip ids (map (columnData maxRows) srcs)),
         usedColumnIds = usedColumnIds st @ ids\<rparr>)"

text \<open>The invariant of the two loops.\<close>

definition mergeInv :: "MergeState \<Rightarrow> bool" where
  "mergeInv st = (fst ` set (bulkData_acc st) \<subseteq> set (usedColumnIds st))"

text \<open>The resolution of one candidate against a set of used ids, as the spec words it:
  the candidate itself when it is unused, otherwise the candidate with the first unused
  suffix.\<close>

definition firstUnused :: "string list \<Rightarrow> string \<Rightarrow> string \<Rightarrow> bool" where
  "firstUnused used candidate resolved =
     (resolved \<notin> set used \<and>
      (if candidate \<notin> set used then resolved = candidate
       else (\<exists>k\<ge>1. resolved = suffixed candidate k \<and>
                   (\<forall>j. 1 \<le> j \<and> j < k \<longrightarrow> suffixed candidate j \<in> set used))))"

text \<open>Every row of the entry has \<open>Object.prototype\<close> or \<open>null\<close> as prototype.\<close>

definition ordinaryRows :: "FormattedEntry \<Rightarrow> bool" where
  "ordinaryRows entry =
     list_all (\<lambda>row. ordinary (protoOf row)) (case data entry of None \<Rightarrow> [] | Some rows \<Rightarrow> rows)"

text \<open>A well-formed formatted selection with the given table name, headers and rows.\<close>

definition formatted :: "string \<Rightarrow> string list \<Rightarrow> jsrow list \<Rightarrow> FormattedEntry" where
  "formatted t hs rows =
     \<lparr>fmt_id = ''sel'', sheet = t, table = t, fmt_timestamp = 0, rowCount = length rows,
      columnCount = length hs, headers = Some hs, data = Some rows\<rparr>"

section \<open>SheetCreationUtils: materializing the sheet\<close>

text \<open>
  The host document is not part of the repository. Its reaction to a call is a parameter:
  \<open>rowModels\<close> reads \<open>gristDoc.docModel.tables.rowModels\<close>, \<open>sendAction\<close> is
  \<open>gristDoc.docModel.docData.sendAction\<close> (it may reject, and returns the action's
  result), \<open>openDocPage\<close> is \<open>gristDoc.openDocPage\<close>. Every action handed to
  \<open>sendAction\<close> is recorded in \<open>sent\<close>, oldest first, so that statements can speak about
  which calls were made.
\<close>

datatype DocAction =
    AddTable string "IColumnInfo list"
  | BulkAddRecord string "jsval list" IBulkData

record 'h DocApi =
  rowModels :: "'h \<Rightarrow> MetaTableRec list"
  sendAction :: "DocAction \<Rightarrow> 'h \<Rightarrow> (error + jsval) \<times> 'h"
  openDocPage :: "nat \<Rightarrow> 'h \<Rightarrow> (error + unit) \<times> 'h"

record 'h GristDoc =
  host :: 'h
  sent :: "DocAction list"

record ICreateSheetOptions =
  baseTableName :: string
  columns :: "IColumnInfo list"
  bulkData :: IBulkData
  navigateToSheet :: "bool option"

text \<open>Sequencing of awaited calls: an exception ends the sequence, the state reached so far
  stays.\<close>

definition returnE :: "'a \<Rightarrow> 's \<Rightarrow> (error + 'a) \<times> 's" where
  "returnE a s = (Inr a, s)"

definition bindE ::
  "('s \<Rightarrow> (error + 'a) \<times> 's) \<Rightarrow> ('a \<Rightarrow> 's \<Rightarrow> (error + 'b) \<times> 's) \<Rightarrow> 's \<Rightarrow> (error + 'b) \<times> 's" where
  "bindE m f s = (case m s of (Inl e, s') \<Rightarrow> (Inl e, s') | (Inr a, s') \<Rightarrow> f a s')"

definition docSendAction ::
  "'h DocApi \<Rightarrow> DocAction \<Rightarrow> 'h GristDoc \<Rightarrow> (error + jsval) \<times> 'h GristDoc" where
  "docSendAction api a d =
     (case sendAction api a (host d) of (r, h') \<Rightarrow> (r, \<lparr>host = h', sent = sent d @ [a]\<rparr>))"

text \<open>\<open>_navigateToSheet(gristDoc, tableId)\<close>; a table or view section that is not found is
  only logged.\<close>

definition navigateTo :: "'h DocApi \<Rightarrow> string \<Rightarrow> 'h GristDoc \<Rightarrow> (error + unit) \<times> 'h GristDoc" where
  "navigateTo api tableId d =
     (case findTable (rowModels api (host d)) tableId of
        Some newTableRec \<Rightarrow>
          (let newViewSection = rawViewSectionRef_peek newTableRec
           in if newViewSection \<noteq> 0 then
                (case openDocPage api newViewSection (host d) of
                   (r, h') \<Rightarrow> (r, \<lparr>host = h', sent = sent d\<rparr>))
              else (Inr (), d))
      | None \<Rightarrow> (Inr (), d))"

text \<open>The \<open>if (Object.keys(bulkData).length > 0)\<close> block.\<close>

definition addData :: "'h DocApi \<Rightarrow> string \<Rightarrow> IBulkData \<Rightarrow> 'h GristDoc \<Rightarrow> (error + unit) \<times> 'h GristDoc" where
  "addData api newTableId bd =
     (case bd of
        [] \<Rightarrow> returnE ()
      | (k, firstColumnData) # others \<Rightarrow>
          (let numRows = length firstColumnData;
               rowIds = replicate numRows JNull
           in bindE (docSendAction api (BulkAddRecord newTableId rowIds bd)) (\<lambda>r. returnE ())))"

definition createNewSheet ::
  "'h DocApi \<Rightarrow> ICreateSheetOptions \<Rightarrow> 'h GristDoc \<Rightarrow> (error + string) \<times> 'h GristDoc" where
  "createNewSheet api options d =
     (case generateUniqueTableName (rowModels api (host d)) (baseTableName options) 10 of
        Inl e \<Rightarrow> (Inl e, d)
      | Inr newTableId \<Rightarrow>
          bindE (docSendAction api (AddTable newTableId (columns options)))
            (\<lambda>r. bindE (addData api newTableId (bulkData options))
              (\<lambda>u. bindE (if navigateToSheet options \<noteq> Some False
                           then navigateTo api newTableId else returnE ())
                (\<lambda>u. returnE newTableId))) d)"

text \<open>The actions a call added to the record.\<close>

definition newlySent :: "'h GristDoc \<Rightarrow> 'h GristDoc \<Rightarrow> DocAction list" where
  "newlySent before after = drop (length (sent before)) (sent after)"

fun isBulkAddRecord :: "DocAction \<Rightarrow> bool" where
  "isBulkAddRecord (BulkAddRecord t rowIds bd) = True"
| "isBulkAddRecord (AddTable t cols) = False"

text \<open>The table an action addresses, and the bulk-insert call made for a given table id and
  \<open>bulkData\<close>: none for an object without keys, otherwise one call with as many \<open>null\<close>
  row ids as the first column has values.\<close>

fun actionTable :: "DocAction \<Rightarrow> string" where
  "actionTable (AddTable t cols) = t"
| "actionTable (BulkAddRecord t rowIds bd) = t"

definition bulkPart :: "string \<Rightarrow> IBulkData \<Rightarrow> DocAction list" where
  "bulkPart n bd =
     (case bd of
        [] \<Rightarrow> []
      | (k, firstColumnData) # others \<Rightarrow>
          [BulkAddRecord n (replicate (length firstColumnData) JNull) bd])"

text \<open>
  A sample host for worked examples: its state is the list of tables; \<open>AddTable\<close> creates
  the table under the name \<open>rename\<close> gives it and answers with that name,
  \<open>BulkAddRecord\<close> and \<open>openDocPage\<close> always succeed.
\<close>

definition sampleApi :: "(string \<Rightarrow> string) \<Rightarrow> (MetaTableRec list) DocApi" where
  "sampleApi rename =
     \<lparr>rowModels = (\<lambda>h. h),
      sendAction = (\<lambda>a h. case a of
          AddTable t cols \<Rightarrow>
            (Inr (JStr (rename t)), h @ [\<lparr>tableId_peek = rename t, rawViewSectionRef_peek = 1\<rparr>])
        | BulkAddRecord t rowIds bd \<Rightarrow> (Inr JNull, h)),
      openDocPage = (\<lambda>p h. (Inr (), h))\<rparr>"

definition emptyDoc :: "(MetaTableRec list) GristDoc" where
  "emptyDoc = \<lparr>host = [], sent = []\<rparr>"

section \<open>GlobalCellSelection: the selection store and the formatter\<close>

datatype UIRowId = RowNum int | RowNew

fun rowIdValue :: "UIRowId \<Rightarrow> jsval" where
  "rowIdValue (RowNum n) = JNum n"
| "rowIdValue RowNew = JStr ''new''"

text \<open>
  Of a field the formatter reads \<open>field.column.peek().colId.peek()\<close> and
  \<open>field.label.peek()\<close>; either read may throw, which is the \<open>Inl\<close> case.
\<close>

record ViewFieldRec =
  colId_peek :: "error + string"
  label_peek :: "error + string"

text \<open>
  A stored selection. The formatter checks for absent \<open>tableId\<close>, \<open>sheetName\<close>,
  \<open>rowIds\<close> and \<open>fields\<close>, so these (and \<open>cellData\<close> and \<open>headers\<close>, which it reads
  unchecked) are optional here; an element of the collection may itself be \<open>null\<close>,
  which is \<open>None\<close> in the list.
\<close>

record IGlobalSelectionEntry =
  sel_id :: string
  sheetName :: "string option"
  sectionId :: int
  tableId :: "string option"
  rowIds :: "UIRowId list option"
  sel_fields :: "ViewFieldRec list option"
  timestamp :: int
  cellData :: "(UIRowId \<times> jsrow) list option"
  sel_headers :: "string list option"

type_synonym selections = "IGlobalSelectionEntry option list"

definition clearSelections :: "selections \<Rightarrow> selections" where
  "clearSelections sels = []"

text \<open>\<open>currentSelections.filter(entry => entry.id !== id)\<close>; reading \<open>id\<close> of a \<open>null\<close> element
  throws.\<close>

fun removeSelection :: "string \<Rightarrow> selections \<Rightarrow> error + selections" where
  "removeSelection i [] = Inr []"
| "removeSelection i (None # rest) = Inl TypeError"
| "removeSelection i (Some entry # rest) =
     (case removeSelection i rest of
        Inl e \<Rightarrow> Inl e
      | Inr rest' \<Rightarrow> Inr (if sel_id entry \<noteq> i then Some entry # rest' else rest'))"

text \<open>\<open>forEach\<close> and \<open>map\<close> with a callback that may throw: the first exception ends the
  iteration.\<close>

fun forEachE :: "('a \<Rightarrow> 's \<Rightarrow> error + 's) \<Rightarrow> 'a list \<Rightarrow> 's \<Rightarrow> error + 's" where
  "forEachE f [] s = Inr s"
| "forEachE f (x # xs) s = (case f x s of Inl e \<Rightarrow> Inl e | Inr s' \<Rightarrow> forEachE f xs s')"

fun mapE :: "('a \<Rightarrow> error + 'b) \<Rightarrow> 'a list \<Rightarrow> error + 'b list" where
  "mapE f [] = Inr []"
| "mapE f (x # xs) =
     (case f x of
        Inl e \<Rightarrow> Inl e
      | Inr y \<Rightarrow> (case mapE f xs of Inl e \<Rightarrow> Inl e | Inr ys \<Rightarrow> Inr (y # ys)))"

text \<open>\<open>cellData[rowId]?.[colId]\<close> on a present \<open>cellData\<close>.\<close>

definition cellOf :: "(UIRowId \<times> jsrow) list \<Rightarrow> UIRowId \<Rightarrow> string \<Rightarrow> jsval" where
  "cellOf cd rowId colId =
     (case map_of cd rowId of None \<Rightarrow> JUndefined | Some cells \<Rightarrow> obj_get cells colId)"

text \<open>The body of the \<open>try\<close> block, for one field of one row.\<close>

definition fieldBody ::
  "IGlobalSelectionEntry \<Rightarrow> UIRowId \<Rightarrow> ViewFieldRec \<Rightarrow> jsrow \<Rightarrow> error + jsrow" where
  "fieldBody entry rowId field row =
     (case colId_peek field of
        Inl e \<Rightarrow> Inl e
      | Inr colId \<Rightarrow>
          (case label_peek field of
             Inl e \<Rightarrow> Inl e
           | Inr header \<Rightarrow>
               (case cellData entry of
                  None \<Rightarrow> Inl TypeError
                | Some cd \<Rightarrow> Inr (obj_set row header (js_or (cellOf cd rowId colId) JNull)))))"

text \<open>The \<open>try\<close> with its \<open>catch\<close>: an exception leaves the row as it was.\<close>

definition fieldStep ::
  "IGlobalSelectionEntry \<Rightarrow> UIRowId \<Rightarrow> ViewFieldRec \<Rightarrow> jsrow \<Rightarrow> error + jsrow" where
  "fieldStep entry rowId field row =
     (case fieldBody entry rowId field row of Inl e \<Rightarrow> Inr row | Inr row' \<Rightarrow> Inr row')"

definition formatRow ::
  "IGlobalSelectionEntry \<Rightarrow> ViewFieldRec list \<Rightarrow> UIRowId \<Rightarrow> error + jsrow" where
  "formatRow entry fs rowId =
     forEachE (fieldStep entry rowId) fs (plain [(''rowId'', rowIdValue rowId)])"

definition rowStep ::
  "IGlobalSelectionEntry \<Rightarrow> ViewFieldRec list \<Rightarrow> UIRowId \<Rightarrow> jsrow list
     \<Rightarrow> error + jsrow list" where
  "rowStep entry fs rowId rows =
     (case formatRow entry fs rowId of Inl e \<Rightarrow> Inl e | Inr row \<Rightarrow> Inr (rows @ [row]))"

text \<open>The callback of \<open>map\<close>: \<open>None\<close> is its \<open>return null\<close>.\<close>

definition formatEntry :: "IGlobalSelectionEntry option \<Rightarrow> error + FormattedEntry option" where
  "formatEntry entryOpt =
     (case entryOpt of
        None \<Rightarrow> Inr None
      | Some entry \<Rightarrow>
          (case (tableId entry, sheetName entry, rowIds entry, sel_fields entry) of
             (Some t, Some s, Some rs, Some fs) \<Rightarrow>
               if t = [] \<or> s = [] then Inr None
               else
                 (case forEachE (rowStep entry fs) rs [] of
                    Inl e \<Rightarrow> Inl e
                  | Inr rows \<Rightarrow>
                      Inr (Some \<lparr>fmt_id = sel_id entry, sheet = s, table = t,
                                 fmt_timestamp = timestamp entry, rowCount = length rs,
                                 columnCount = length fs, headers = sel_headers entry,
                                 data = Some rows\<rparr>))
           | other \<Rightarrow> Inr None))"

fun dropNulls :: "'a option list \<Rightarrow> 'a list" where
  "dropNulls [] = []"
| "dropNulls (None # xs) = dropNulls xs"
| "dropNulls (Some x # xs) = x # dropNulls xs"

definition getFormattedData :: "selections \<Rightarrow> error + FormattedEntry list" where
  "getFormattedData sels =
     (case mapE formatEntry (filter (\<lambda>entry. entry \<noteq> None) sels) of
        Inl e \<Rightarrow> Inl e
      | Inr out \<Rightarrow> Inr (dropNulls out))"

text \<open>An entry passes the formatter's validation.\<close>

definition usable :: "IGlobalSelectionEntry option \<Rightarrow> bool" where
  "usable entryOpt =
     (case entryOpt of
        None \<Rightarrow> False
      | Some entry \<Rightarrow>
          tableId entry \<noteq> None \<and> tableId entry \<noteq> Some [] \<and>
          sheetName entry \<noteq> None \<and> sheetName entry \<noteq> Some [] \<and>
          rowIds entry \<noteq> None \<and> sel_fields entry \<noteq> None)"

text \<open>A field whose reads throw.\<close>

definition throwing :: "IGlobalSelectionEntry \<Rightarrow> ViewFieldRec \<Rightarrow> bool" where
  "throwing entry field =
     (isl (colId_peek field) \<or> isl (label_peek field) \<or> cellData entry = None)"

text \<open>
  What the formatter amounts to once its \<open>catch\<close> is taken into account: a row is built
  by applying the fields in order, a field whose body throws leaving the row unchanged;
  a usable entry gives the formatted entry below. The formatter is proved to compute
  these.
\<close>

definition buildRow :: "IGlobalSelectionEntry \<Rightarrow> ViewFieldRec list \<Rightarrow> UIRowId \<Rightarrow> jsrow" where
  "buildRow entry fs rowId =
     fold (\<lambda>field row. case fieldBody entry rowId field row of Inl e \<Rightarrow> row | Inr row' \<Rightarrow> row')
          fs (plain [(''rowId'', rowIdValue rowId)])"

definition orEmpty :: "'a list option \<Rightarrow> 'a list" where
  "orEmpty xs = (case xs of None \<Rightarrow> [] | Some ys \<Rightarrow> ys)"

definition formattedOf :: "IGlobalSelectionEntry \<Rightarrow> FormattedEntry" where
  "formattedOf entry =
     \<lparr>fmt_id = sel_id entry, sheet = orEmpty (sheetName entry), table = orEmpty (tableId entry),
      fmt_timestamp = timestamp entry, rowCount = length (orEmpty (rowIds entry)),
      columnCount = length (orEmpty (sel_fields entry)), headers = sel_headers entry,
      data = Some (map (buildRow entry (orEmpty (sel_fields entry))) (orEmpty (rowIds entry)))\<rparr>"

text \<open>A field whose reads succeed, the column id and the label a field reads as, and a
  stored selection as a capture leaves it: every property present, the headers being the
  labels of the fields.\<close>

definition fieldRec :: "string \<Rightarrow> string \<Rightarrow> ViewFieldRec" where
  "fieldRec colId header = \<lparr>colId_peek = Inr colId, label_peek = Inr header\<rparr>"


definition labelOf :: "ViewFieldRec \<Rightarrow> string" where
  "labelOf field = (case label_peek field of Inl e \<Rightarrow> [] | Inr header \<Rightarrow> header)"

definition captured ::
  "string \<Rightarrow> string \<Rightarrow> ViewFieldRec list \<Rightarrow> UIRowId list \<Rightarrow> (UIRowId \<times> jsrow) list
     \<Rightarrow> IGlobalSelectionEntry" where
  "captured i t fs rs cd =
     \<lparr>sel_id = i, sheetName = Some t, sectionId = 1, tableId = Some t, rowIds = Some rs,
      sel_fields = Some fs, timestamp = 0, cellData = Some cd,
      sel_headers = Some (map labelOf fs)\<rparr>"

text \<open>An element of the collection is an entry with the given id.\<close>

definition hasId :: "string \<Rightarrow> IGlobalSelectionEntry option \<Rightarrow> bool" where
  "hasId i entryOpt = (case entryOpt of None \<Rightarrow> False | Some entry \<Rightarrow> sel_id entry = i)"

section \<open>GlobalCellSelection: creating the sheet from the store\<close>

text \<open>\<open>String.prototype.trim\<close> on the white space of the 8-bit range.\<close>

definition isSpace :: "char \<Rightarrow> bool" where
  "isSpace c = (c \<in> set [CHR '' '', CHR 0x09, CHR 0x0A, CHR 0x0B, CHR 0x0C, CHR 0x0D, CHR 0xA0])"

definition trim :: "string \<Rightarrow> string" where
  "trim s = rev (dropWhile isSpace (rev (dropWhile isSpace s)))"

text \<open>
  \<open>showNewSheetNameModal(onSubmit, defaultName, gristDoc)\<close>. The dialog belongs to the
  host; the user's answer is a parameter: given the pre-filled name, \<open>None\<close> is Cancel and
  \<open>Some text\<close> is Create with \<open>text\<close> in the input. \<open>autoName\<close> is the pre-filled name.
\<close>

definition autoName :: "'h DocApi \<Rightarrow> 'h GristDoc \<Rightarrow> string \<Rightarrow> string" where
  "autoName api d defaultName =
     (if defaultName \<noteq> [] then
        (case generateUniqueTableName (rowModels api (host d)) defaultName 10 of
           Inl e \<Rightarrow> defaultName
         | Inr n \<Rightarrow> n)
      else defaultName)"

definition showNewSheetNameModal ::
  "'h DocApi \<Rightarrow> (string \<Rightarrow> string option) \<Rightarrow> (string \<Rightarrow> 's \<times> 'h GristDoc \<Rightarrow> (error + unit) \<times> 's \<times> 'h GristDoc)
     \<Rightarrow> string \<Rightarrow> 's \<times> 'h GristDoc \<Rightarrow> (error + unit) \<times> 's \<times> 'h GristDoc" where
  "showNewSheetNameModal api user onSubmit defaultName st =
     (case user (autoName api (snd st) defaultName) of
        None \<Rightarrow> (Inr (), st)
      | Some text \<Rightarrow>
          (let name = trim text
           in if name = [] then (Inl EmptySheetName, st) else onSubmit name st))"

text \<open>
  \<open>GlobalCellSelection.createNewSheet\<close>, on the pair of the selection collection and the
  document. The result is that of the whole interaction, the submit callback included.
\<close>

definition submitSheet ::
  "'h DocApi \<Rightarrow> FormattedEntry list \<Rightarrow> string \<Rightarrow> selections \<times> 'h GristDoc
     \<Rightarrow> (error + unit) \<times> selections \<times> 'h GristDoc" where
  "submitSheet api formattedData sheetName' st =
     (case convertGlobalSelectionData formattedData of
        Inl e \<Rightarrow> (Inl e, st)
      | Inr (cols, bd) \<Rightarrow>
          (case createNewSheet api
                  \<lparr>baseTableName = sheetName', columns = cols, bulkData = bd,
                   navigateToSheet = Some True\<rparr> (snd st) of
             (Inl e, d') \<Rightarrow> (Inl e, (fst st, d'))
           | (Inr newTableId, d') \<Rightarrow> (Inr (), (clearSelections (fst st), d'))))"

definition storeCreateNewSheet ::
  "'h DocApi \<Rightarrow> (string \<Rightarrow> string option) \<Rightarrow> selections \<times> 'h GristDoc
     \<Rightarrow> (error + unit) \<times> selections \<times> 'h GristDoc" where
  "storeCreateNewSheet api user st =
     (case getFormattedData (fst st) of
        Inl e \<Rightarrow> (Inl e, st)
      | Inr formattedData \<Rightarrow>
          if formattedData = [] then (Inr (), st)
          else showNewSheetNameModal api user (submitSheet api formattedData)
                 ''GlobalSelections'' st)"

text \<open>A user who presses Create on the pre-filled name.\<close>

definition acceptSuggested :: "string \<Rightarrow> string option" where
  "acceptSuggested suggestedName = Some suggestedName"

section \<open>Properties of the table-name resolver\<close>

lemma uniqueNameLoop_find:
  "uniqueNameLoop rm base m counter name =
     (if counter \<le> m then
        (case find (\<lambda>c. \<not> tableExists rm c) (name # map (suffixed base) [counter..<m]) of
           Some c \<Rightarrow> Inr c | None \<Rightarrow> Inl (NameExhausted m))
      else Inl (NameExhausted m))"
proof (induction rm base m counter name rule: uniqueNameLoop.induct)
  case (1 rm base m counter name)
  show ?case
  proof (cases "counter \<le> m")
    case False
    then show ?thesis by (subst uniqueNameLoop.simps) simp
  next
    case le: True
    show ?thesis
    proof (cases "findTable rm name = None")
      case True
      with le show ?thesis
        by (subst uniqueNameLoop.simps) (simp add: tableExists_def)
    next
      case False
      have step: "uniqueNameLoop rm base m counter name =
          uniqueNameLoop rm base m (counter + 1) (base @ ''_'' @ decimal counter)"
        using le False by (subst uniqueNameLoop.simps) auto
      show ?thesis
      proof (cases "counter < m")
        case True
        then have u: "[counter..<m] = counter # [counter + 1..<m]"
          by (simp add: upt_conv_Cons)
        from True le False show ?thesis
          unfolding step "1.IH" [OF le False] u
          by (auto simp: tableExists_def suffixed_def)
      next
        case False
        with le have "counter = m" by simp
        with \<open>findTable rm name \<noteq> None\<close> show ?thesis
          unfolding step "1.IH" [OF le \<open>findTable rm name \<noteq> None\<close>]
          by (auto simp: tableExists_def)
      qed
    qed
  qed
qed

lemma generateUniqueTableName_find:
  "generateUniqueTableName rm base m =
     (case find (\<lambda>c. \<not> tableExists rm c) (candidates base m) of
        Some c \<Rightarrow> Inr c | None \<Rightarrow> Inl (NameExhausted m))"
  by (cases "m = 0") (simp_all add: generateUniqueTableName_def uniqueNameLoop_find candidates_def)

lemma length_candidates: "length (candidates base n) = n"
  by (simp add: candidates_def)

lemma nth_candidates:
  "k < n \<Longrightarrow> candidates base n ! k = (if k = 0 then base else base @ ''_'' @ decimal k)"
  by (cases k) (auto simp: candidates_def suffixed_def)

text \<open>
  Claim C3. The resolver tests the base name first and then the base name with the
  suffixes \<open>_1\<close>, \<open>_2\<close>, ..., \<open>maxRetries\<close> candidates in all; it returns the first
  candidate no table has, never a name some table has, and fails with the exhaustion
  error exactly when every candidate is taken. With the tables \<open>Orders\<close>, \<open>Orders_1\<close>,
  ..., \<open>Orders_9\<close> and ten tries it fails; with the table \<open>Orders\<close> alone it returns
  \<open>Orders_1\<close>.
\<close>

theorem name_resolver:
  "generateUniqueTableName rm base maxRetries =
     (case find (\<lambda>c. \<not> tableExists rm c) (candidates base maxRetries) of
        Some c \<Rightarrow> Inr c | None \<Rightarrow> Inl (NameExhausted maxRetries))
   \<and> length (candidates base maxRetries) = maxRetries
   \<and> (\<forall>k<maxRetries. candidates base maxRetries ! k =
          (if k = 0 then base else base @ ''_'' @ decimal k))
   \<and> (0 < maxRetries \<and> \<not> tableExists rm base \<longrightarrow>
          generateUniqueTableName rm base maxRetries = Inr base)
   \<and> (\<forall>r. generateUniqueTableName rm base maxRetries = Inr r \<longrightarrow>
          \<not> tableExists rm r \<and>
          (\<exists>i<maxRetries. r = candidates base maxRetries ! i \<and>
             (\<forall>j<i. tableExists rm (candidates base maxRetries ! j))))
   \<and> ((\<forall>c \<in> set (candidates base maxRetries). tableExists rm c) \<longleftrightarrow>
          generateUniqueTableName rm base maxRetries = Inl (NameExhausted maxRetries))
   \<and> generateUniqueTableName
        (tablesNamed [''Orders'', ''Orders_1'', ''Orders_2'', ''Orders_3'', ''Orders_4'',
                      ''Orders_5'', ''Orders_6'', ''Orders_7'', ''Orders_8'', ''Orders_9''])
        ''Orders'' 10 = Inl (NameExhausted 10)
   \<and> generateUniqueTableName (tablesNamed [''Orders'']) ''Orders'' 10 = Inr ''Orders_1''"
proof -
  let ?free = "\<lambda>c. \<not> tableExists rm c"
  let ?cs = "candidates base maxRetries"
  let ?g = "generateUniqueTableName rm base maxRetries"
  note g = generateUniqueTableName_find [of rm base maxRetries]
  have c3: "\<forall>k<maxRetries. ?cs ! k = (if k = 0 then base else base @ ''_'' @ decimal k)"
    by (simp add: nth_candidates)
  have c4: "0 < maxRetries \<and> \<not> tableExists rm base \<longrightarrow> ?g = Inr base"
    unfolding g by (simp add: candidates_def)
  have c5: "\<forall>r. ?g = Inr r \<longrightarrow>
          \<not> tableExists rm r \<and>
          (\<exists>i<maxRetries. r = ?cs ! i \<and> (\<forall>j<i. tableExists rm (?cs ! j)))"
  proof (intro allI impI)
    fix r assume "?g = Inr r"
    then have "find ?free ?cs = Some r"
      unfolding g by (simp split: option.splits)
    then obtain i where "i < length ?cs" "?free (?cs ! i)" "r = ?cs ! i" "\<forall>j<i. \<not> ?free (?cs ! j)"
      unfolding find_Some_iff by blast
    then show "\<not> tableExists rm r \<and>
          (\<exists>i<maxRetries. r = ?cs ! i \<and> (\<forall>j<i. tableExists rm (?cs ! j)))"
      by (auto simp: length_candidates)
  qed
  have c6: "(\<forall>c \<in> set ?cs. tableExists rm c) \<longleftrightarrow> ?g = Inl (NameExhausted maxRetries)"
  proof (cases "find ?free ?cs")
    case None
    then have "\<forall>c \<in> set ?cs. tableExists rm c" by (simp add: find_None_iff)
    with None show ?thesis unfolding g by simp
  next
    case (Some x)
    then have "x \<in> set ?cs" "?free x"
      unfolding find_Some_iff by auto
    with Some show ?thesis unfolding g by auto
  qed
  have e1: "generateUniqueTableName
        (tablesNamed [''Orders'', ''Orders_1'', ''Orders_2'', ''Orders_3'', ''Orders_4'',
                      ''Orders_5'', ''Orders_6'', ''Orders_7'', ''Orders_8'', ''Orders_9''])
        ''Orders'' 10 = Inl (NameExhausted 10)"
    by code_simp
  have e2: "generateUniqueTableName (tablesNamed [''Orders'']) ''Orders'' 10 = Inr ''Orders_1''"
    by code_simp
  from g length_candidates [of base maxRetries] c3 c4 c5 c6 e1 e2 show ?thesis by blast
qed

theorem name_resolver_witness:
  "generateUniqueTableName (tablesNamed [''Sheet'']) ''Report'' 10 = Inr ''Report''
   \<and> \<not> tableExists (tablesNamed [''Sheet'']) ''Report''
   \<and> generateUniqueTableName (tablesNamed [''Orders'']) ''Orders'' 2 = Inr ''Orders_1''
   \<and> tableExists (tablesNamed [''Orders'']) ''Orders''
   \<and> \<not> tableExists (tablesNamed [''Orders'']) ''Orders_1''
   \<and> generateUniqueTableName (tablesNamed [''Orders'']) ''Orders'' 1 = Inl (NameExhausted 1)"
proof -
  have f: "\<not> tableExists (tablesNamed [''Sheet'']) ''Report''"
    by (simp add: tableExists_def tablesNamed_def findTable_def)
  have a: "generateUniqueTableName (tablesNamed [''Sheet'']) ''Report'' 10 = Inr ''Report''"
  proof -
    have "0 < (10::nat)" by simp
    with name_resolver [of "tablesNamed [''Sheet'']" "''Report''" 10] f show ?thesis by blast
  qed
  have t: "tableExists (tablesNamed [''Orders'']) ''Orders''"
    by (simp add: tableExists_def tablesNamed_def findTable_def)
  have c1: "\<forall>c \<in> set (candidates ''Orders'' 1). tableExists (tablesNamed [''Orders'']) c"
    using t by (simp add: candidates_def)
  have b: "generateUniqueTableName (tablesNamed [''Orders'']) ''Orders'' 1 = Inl (NameExhausted 1)"
    using name_resolver [of "tablesNamed [''Orders'']" "''Orders''" 1] c1 by blast
  have e: "generateUniqueTableName (tablesNamed [''Orders'']) ''Orders'' 2 = Inr ''Orders_1''"
    by code_simp
  have n: "\<not> tableExists (tablesNamed [''Orders'']) ''Orders_1''"
    using name_resolver [of "tablesNamed [''Orders'']" "''Orders''" 2] e by blast
  from f a t b e n show ?thesis by blast
qed

section \<open>Properties of the layout merger\<close>

lemma columnIdLoop_spec:
  "columnIdLoop used base stem cid lbl counter = (rid, rlbl) \<Longrightarrow>
     rid \<notin> set used \<and>
     (if cid \<notin> set used then rid = cid \<and> rlbl = lbl
      else (\<exists>k\<ge>counter. rid = suffixed base k \<and> rlbl = suffixed stem k \<and>
             (\<forall>j. counter \<le> j \<and> j < k \<longrightarrow> suffixed base j \<in> set used)))"
proof (induction used base stem cid lbl counter rule: columnIdLoop.induct)
  case (1 used base stem cid lbl counter)
  show ?case
  proof (cases "cid \<in> set used")
    case False
    with "1.prems" show ?thesis by (subst (asm) columnIdLoop.simps) simp
  next
    case True
    with "1.prems" have r: "columnIdLoop used base stem (suffixed base counter)
        (suffixed stem counter) (counter + 1) = (rid, rlbl)"
      by (subst (asm) columnIdLoop.simps) simp
    note ih = "1.IH" [OF True r]
    show ?thesis
    proof (cases "suffixed base counter \<in> set used")
      case False
      with ih True show ?thesis by auto
    next
      case t: True
      with ih obtain k where k: "counter + 1 \<le> k" "rid = suffixed base k"
        "\<forall>j. counter + 1 \<le> j \<and> j < k \<longrightarrow> suffixed base j \<in> set used"
        and rr: "rid \<notin> set used" "rlbl = suffixed stem k"
        by auto
      have "\<forall>j. counter \<le> j \<and> j < k \<longrightarrow> suffixed base j \<in> set used"
      proof (intro allI impI)
        fix j assume "counter \<le> j \<and> j < k"
        then have "j = counter \<or> (counter + 1 \<le> j \<and> j < k)" by auto
        with t k(3) show "suffixed base j \<in> set used" by auto
      qed
      with k rr True show ?thesis
        by (auto intro!: exI [of _ k])
    qed
  qed
qed

lemma resolveId_spec: "firstUnused used c (resolveId used c)"
proof -
  obtain rid rlbl where r: "columnIdLoop used c c c c 1 = (rid, rlbl)"
    by (cases "columnIdLoop used c c c c 1")
  from columnIdLoop_spec [OF r] r show ?thesis
    by (auto simp: firstUnused_def resolveId_def)
qed

lemma columnIdLoop_label: "snd (columnIdLoop used c c c c 1) = resolveId used c"
proof -
  obtain rid rlbl where r: "columnIdLoop used c c c c 1 = (rid, rlbl)"
    by (cases "columnIdLoop used c c c c 1")
  from columnIdLoop_spec [OF r] r show ?thesis
    by (auto simp: resolveId_def split: if_splits)
qed

lemma fillColumn_map:
  "fillColumn entry header maxRows rowIndex col = col @ map (cellValue entry header) [rowIndex..<maxRows]"
proof (induction entry header maxRows rowIndex col rule: fillColumn.induct)
  case (1 entry header maxRows rowIndex col)
  show ?case
  proof (cases "rowIndex < maxRows")
    case True
    with "1.IH" [OF True] show ?thesis
      by (subst fillColumn.simps) (simp add: upt_conv_Cons)
  next
    case False
    then show ?thesis by (subst fillColumn.simps) simp
  qed
qed


lemma resolveAll_append:
  "resolveAll used (xs @ ys) = resolveAll used xs @ resolveAll (used @ resolveAll used xs) ys"
  by (induction xs arbitrary: used) simp_all

lemma length_resolveAll: "length (resolveAll used cs) = length cs"
  by (induction cs arbitrary: used) simp_all

lemma resolveId_fresh: "resolveId used c \<notin> set used"
  using resolveId_spec [of used c] by (simp add: firstUnused_def)

lemma resolveAll_fresh: "set (resolveAll used cs) \<inter> set used = {}"
proof (induction cs arbitrary: used)
  case Nil
  show ?case by simp
next
  case (Cons c cs)
  from Cons.IH [of "used @ [resolveId used c]"] resolveId_fresh [of used c]
  show ?case by auto
qed

lemma distinct_resolveAll: "distinct (resolveAll used cs)"
proof (induction cs arbitrary: used)
  case Nil
  show ?case by simp
next
  case (Cons c cs)
  from resolveAll_fresh [of "used @ [resolveId used c]" cs] Cons.IH
  show ?case by auto
qed

lemma resolveAll_nth:
  "p < length cs \<Longrightarrow>
     firstUnused (used @ take p (resolveAll used cs)) (cs ! p) (resolveAll used cs ! p)"
proof (induction cs arbitrary: used p)
  case Nil
  then show ?case by simp
next
  case (Cons c cs)
  show ?case
  proof (cases p)
    case 0
    then show ?thesis by (simp add: resolveId_spec)
  next
    case (Suc q)
    with Cons.prems have "q < length cs" by simp
    from Cons.IH [OF this, of "used @ [resolveId used c]"] Suc show ?thesis by simp
  qed
qed

lemma put_fresh: "k \<notin> fst ` set props \<Longrightarrow> put props k v = props @ [(k, v)]"
  by (induction props) auto

lemma data_set_fresh:
  "k \<notin> fst ` set obj \<Longrightarrow> data_set obj k v = obj @ ownEntries [(k, v)]"
  by (auto simp: data_set_def ownEntries_def put_fresh map_of_eq_None_iff)

lemma ownEntries_append: "ownEntries (xs @ ys) = ownEntries xs @ ownEntries ys"
  by (simp add: ownEntries_def)

lemma ownEntries_keys: "fst ` set (ownEntries (zip ids cols)) \<subseteq> set ids"
  by (auto simp: ownEntries_def dest: set_zip_leftD)

lemma addColumn_addColumns:
  assumes "mergeInv st"
  shows "addColumn entry pfx maxRows header st = addColumns maxRows [(entry, header, pfx @ header)] st"
proof -
  let ?c = "pfx @ header"
  obtain rid rlbl where r: "columnIdLoop (usedColumnIds st) ?c ?c ?c ?c 1 = (rid, rlbl)"
    by (cases "columnIdLoop (usedColumnIds st) ?c ?c ?c ?c 1")
  from r have rid: "rid = resolveId (usedColumnIds st) ?c" by (simp add: resolveId_def)
  from r columnIdLoop_label [of "usedColumnIds st" ?c] have rl: "rlbl = rid" by (simp add: rid)
  from assms resolveId_fresh [of "usedColumnIds st" ?c]
  have "rid \<notin> fst ` set (bulkData_acc st)" by (auto simp: mergeInv_def rid)
  then have o: "data_set (bulkData_acc st) rid v = bulkData_acc st @ ownEntries [(rid, v)]" for v
    by (rule data_set_fresh)
  show ?thesis
    unfolding addColumn_def addColumns_def Let_def r
    by (simp add: o rl fillColumn_map mkColumn_def columnData_def flip: rid)
qed

lemma mergeInv_addColumns: "mergeInv st \<Longrightarrow> mergeInv (addColumns maxRows srcs st)"
  using ownEntries_keys [of "resolveAll (usedColumnIds st) (map (\<lambda>s. snd (snd s)) srcs)"
      "map (columnData maxRows) srcs"]
  by (auto simp: mergeInv_def addColumns_def Let_def)

lemma addColumns_Nil: "addColumns maxRows [] st = st"
  by (simp add: addColumns_def ownEntries_def)

lemma addColumns_append: "addColumns maxRows (xs @ ys) st = addColumns maxRows ys (addColumns maxRows xs st)"
  by (simp add: addColumns_def Let_def resolveAll_append length_resolveAll ownEntries_append)

lemma headerLoop_addColumns:
  "mergeInv st \<Longrightarrow>
     headerLoop entry pfx maxRows hs st = addColumns maxRows (map (\<lambda>h. (entry, h, pfx @ h)) hs) st"
proof (induction hs arbitrary: st)
  case Nil
  show ?case by (simp add: addColumns_Nil)
next
  case (Cons h hs)
  have i: "mergeInv (addColumns maxRows [(entry, h, pfx @ h)] st)"
    using Cons.prems by (rule mergeInv_addColumns)
  have "headerLoop entry pfx maxRows (h # hs) st
      = headerLoop entry pfx maxRows hs (addColumns maxRows [(entry, h, pfx @ h)] st)"
    by (simp add: addColumn_addColumns [OF Cons.prems])
  also have "\<dots> = addColumns maxRows (map (\<lambda>h. (entry, h, pfx @ h)) hs) (addColumns maxRows [(entry, h, pfx @ h)] st)"
    by (rule Cons.IH [OF i])
  also have "\<dots> = addColumns maxRows ([(entry, h, pfx @ h)] @ map (\<lambda>h. (entry, h, pfx @ h)) hs) st"
    by (simp only: addColumns_append)
  finally show ?case by simp
qed

lemma columnSources_Nil: "columnSources i [] = []"
  by (simp add: columnSources_def)

lemma columnSources_Cons:
  "columnSources i (entry # rest) =
     map (\<lambda>h. (entry, h, columnPrefix i entry @ h)) (headersOf entry) @ columnSources (Suc i) rest"
  by (simp add: columnSources_def)

lemma selectionLoop_addColumns:
  "mergeInv st \<Longrightarrow>
     selectionLoop maxRows i formattedData st = addColumns maxRows (columnSources i formattedData) st"
proof (induction formattedData arbitrary: i st)
  case Nil
  show ?case by (simp add: columnSources_Nil addColumns_Nil)
next
  case (Cons entry rest)
  show ?case
  proof (cases "headers entry")
    case None
    then show ?thesis
      using Cons.IH [OF Cons.prems, of "Suc i"]
      by (simp add: columnSources_Cons headersOf_def)
  next
    case (Some hs)
    have i: "mergeInv (addColumns maxRows (map (\<lambda>h. (entry, h, columnPrefix i entry @ h)) hs) st)"
      using Cons.prems by (rule mergeInv_addColumns)
    from Some show ?thesis
      using Cons.IH [OF i, of "Suc i"]
      by (simp add: columnSources_Cons headersOf_def headerLoop_addColumns [OF Cons.prems] addColumns_append)
  qed
qed

lemma resolveAll_empty: "resolveAll used cs = [] \<longleftrightarrow> cs = []"
  by (cases cs) simp_all

lemma convert_addColumns:
  "convertGlobalSelectionData formattedData =
     (if formattedData = [] then Inl NoFormattedData
      else let srcs = columnSources 0 formattedData;
               ids = resolveAll [] (map (\<lambda>s. snd (snd s)) srcs)
           in if srcs = [] then Inl NoValidColumns
              else Inr (map mkColumn ids,
                        ownEntries (zip ids (map (columnData (maxRowCount formattedData)) srcs))))"
proof -
  have "mergeInv \<lparr>columns_acc = [], bulkData_acc = [], usedColumnIds = []\<rparr>"
    by (simp add: mergeInv_def)
  from selectionLoop_addColumns [OF this] show ?thesis
    by (simp add: convertGlobalSelectionData_def Let_def addColumns_def resolveAll_empty)
qed

lemma length_columnSources:
  "length (columnSources i formattedData) = sum_list (map headerCount formattedData)"
  by (induction formattedData arbitrary: i)
     (simp_all add: columnSources_Nil columnSources_Cons headerCount_def)

lemma columnSources_candidates:
  "map (\<lambda>s. snd (snd s)) (columnSources 0 formattedData) = candidateIds formattedData"
  by (simp add: columnSources_def candidateIds_def map_concat comp_def split_def)

lemma columnSources_data:
  "map (columnData maxRows) (columnSources i formattedData) =
     concat (map (\<lambda>entry. map (\<lambda>h. map (cellValue entry h) [0..<maxRows]) (headersOf entry))
                 formattedData)"
  by (induction formattedData arbitrary: i)
     (simp_all add: columnSources_Nil columnSources_Cons columnData_def comp_def)

lemma maxRowCount_Max:
  "formattedData \<noteq> [] \<Longrightarrow> maxRowCount formattedData = Max (rowCount ` set formattedData)"
proof -
  assume ne: "formattedData \<noteq> []"
  have "fold max xs (a::nat) = Max (insert a (set xs))" for xs a
    by (metis Max.set_eq_fold list.simps(15))
  then have "maxRowCount formattedData = Max (insert 0 (rowCount ` set formattedData))"
    by (simp add: maxRowCount_def)
  also from ne have "\<dots> = Max (rowCount ` set formattedData)"
    by (simp add: max_def)
  finally show ?thesis .
qed

lemma cellValue_padding: "ownRows entry \<le> r \<Longrightarrow> cellValue entry header r = JStr []"
  by (simp add: cellValue_def ownRows_def split: option.splits)

lemma cellValue_row:
  "data entry = Some rows \<Longrightarrow> r < length rows \<Longrightarrow>
     cellValue entry header r =
       (if truthy (obj_get (rows ! r) header) then obj_get (rows ! r) header else JStr [])"
  by (simp add: cellValue_def js_or_def)

lemma cellValue_own:
  "data entry = Some rows \<Longrightarrow> r < length rows \<Longrightarrow> map_of (own (rows ! r)) header = Some v \<Longrightarrow>
     cellValue entry header r = (if truthy v then v else JStr [])"
  by (simp add: cellValue_row obj_get_def)

lemma cellValue_absent:
  "data entry = Some rows \<Longrightarrow> r < length rows \<Longrightarrow> map_of (own (rows ! r)) header = None \<Longrightarrow>
     protoOf (rows ! r) = NullPrototype \<or>
       (protoOf (rows ! r) = ObjectPrototype \<and> header \<notin> set protoMembers) \<Longrightarrow>
     cellValue entry header r = JStr []"
  by (auto simp: cellValue_row obj_get_def split: prototype.splits)

lemma cellValue_inherited:
  "data entry = Some rows \<Longrightarrow> r < length rows \<Longrightarrow> map_of (own (rows ! r)) header = None \<Longrightarrow>
     header \<in> set protoMembers \<Longrightarrow> protoOf (rows ! r) = ObjectPrototype \<Longrightarrow>
     cellValue entry header r = JBuiltin header"
  by (simp add: cellValue_row obj_get_def)

lemma convert_example_sales:
  "convertGlobalSelectionData
      [formatted ''Sales'' [''Qty'']
         [plain [(''rowId'', JNum 11), (''Qty'', JNum 1)],
          plain [(''rowId'', JNum 12), (''Qty'', JNum 2)],
          plain [(''rowId'', JNum 13), (''Qty'', JNum 3)]],
       formatted ''Sales'' [''Qty'']
         [plain [(''rowId'', JNum 21), (''Qty'', JNum 9)],
          plain [(''rowId'', JNum 22), (''Qty'', JNum 8)]]]
     = Inr ([\<lparr>col_id = ''Sales_Qty'', col_label = ''Sales_Qty'', col_type = ''Text''\<rparr>,
             \<lparr>col_id = ''Sales_Qty_1'', col_label = ''Sales_Qty_1'', col_type = ''Text''\<rparr>],
            [(''Sales_Qty'', [JNum 1, JNum 2, JNum 3]),
             (''Sales_Qty_1'', [JNum 9, JNum 8, JStr ''''])])"
  by code_simp

lemma convert_ok:
  assumes "formattedData \<noteq> []" and "0 < sum_list (map headerCount formattedData)"
  shows "convertGlobalSelectionData formattedData =
     Inr (map mkColumn (resolveAll [] (candidateIds formattedData)),
          ownEntries (zip (resolveAll [] (candidateIds formattedData))
              (map (columnData (maxRowCount formattedData)) (columnSources 0 formattedData))))"
proof -
  from assms(2) have "sum_list (map headerCount formattedData) \<noteq> 0" by linarith
  then have "length (columnSources 0 formattedData) \<noteq> 0"
    by (simp only: length_columnSources not_False_eq_True)
  then have "columnSources 0 formattedData \<noteq> []" by simp
  with assms(1) show ?thesis
    by (simp add: convert_addColumns Let_def columnSources_candidates)
qed

lemma length_candidateIds:
  "length (candidateIds formattedData) = sum_list (map headerCount formattedData)"
  using length_columnSources [of 0 formattedData] columnSources_candidates [of formattedData]
  by (metis length_map)

lemma decimal_last: "last (decimal n) = digit_char (n mod 10)"
  by (cases "n < 10") (simp_all add: decimal_small decimal_large)

lemma digit_char_not_underscore: "d < 10 \<Longrightarrow> digit_char d \<noteq> CHR ''_''"
proof -
  assume "d < 10"
  then have "digit_char d \<in> set ''0123456789''"
    unfolding digit_char_def by (intro nth_mem) simp
  then show ?thesis by auto
qed

lemma suffixed_not_proto: "suffixed c k \<noteq> ''__proto__''"
proof
  assume e: "suffixed c k = ''__proto__''"
  have "last (suffixed c k) = digit_char (k mod 10)"
    by (simp add: suffixed_def decimal_nonempty decimal_last)
  with e have "digit_char (k mod 10) = CHR ''_''" by simp
  with digit_char_not_underscore [of "k mod 10"] show False by simp
qed

lemma resolveId_cases: "resolveId used c = c \<or> (\<exists>k. resolveId used c = suffixed c k)"
  using resolveId_spec [of used c] by (auto simp: firstUnused_def split: if_splits)

lemma resolveId_no_proto: "c \<noteq> ''__proto__'' \<Longrightarrow> resolveId used c \<noteq> ''__proto__''"
  using resolveId_cases [of used c] suffixed_not_proto [of c] by auto

lemma resolveAll_no_proto:
  "''__proto__'' \<notin> set cs \<Longrightarrow> ''__proto__'' \<notin> set (resolveAll used cs)"
proof (induction cs arbitrary: used)
  case Nil
  show ?case by simp
next
  case (Cons c cs)
  from Cons.prems have c: "c \<noteq> ''__proto__''" and cs: "''__proto__'' \<notin> set cs" by auto
  from resolveId_no_proto [OF c, of used] Cons.IH [OF cs, of "used @ [resolveId used c]"]
  show ?case by simp
qed

lemma ownEntries_all: "''__proto__'' \<notin> set ids \<Longrightarrow> ownEntries (zip ids cols) = zip ids cols"
  unfolding ownEntries_def by (rule filter_True) (auto dest: set_zip_leftD)

lemma formattedOf_rows: "ownRows (formattedOf entry) = rowCount (formattedOf entry)"
  by (simp add: ownRows_def formattedOf_def)

text \<open>
  Claim C1, amended. For a non-empty list of formatted selections, each with a headers
  array, with at least one header among them, with no candidate column id (sanitized
  table prefix plus header) equal to \<open>__proto__\<close> and with rows whose prototype is
  \<open>Object.prototype\<close> or \<open>null\<close>, the merger returns a grid: there are as
  many columns as headers in all; the keys of \<open>bulkData\<close> are the column ids, in order;
  the columns carry, selection by selection and header by header, the values of rows
  \<open>0\<close> to \<open>maxRows - 1\<close>, where \<open>maxRows\<close> is the largest row count; every column has that
  length. A value is the empty string at every row index the selection has no row for
  (the selections the formatter makes have as many rows as their row count says); where
  the row has the header as an own property it is that property's value, or the empty
  string when that is falsy; where the row has no such property it is the empty string
  unless the header names a member of \<open>Object.prototype\<close> that the row inherits, which is
  then the value. The selections \<open>Sales/Qty\<close> with rows 1, 2, 3 and \<open>Sales/Qty\<close> with rows
  9, 8 give the columns \<open>Sales_Qty\<close> and \<open>Sales_Qty_1\<close> with data 1, 2, 3 and 9, 8, empty.
\<close>

theorem merge_layout:
  "(formattedData \<noteq> [] \<and> (\<forall>entry \<in> set formattedData. headers entry \<noteq> None) \<and>
    0 < sum_list (map headerCount formattedData) \<and>
    ''__proto__'' \<notin> set (candidateIds formattedData) \<and>
    list_all ordinaryRows formattedData \<longrightarrow>
      (\<exists>cols bd. convertGlobalSelectionData formattedData = Inr (cols, bd)
         \<and> length cols = sum_list (map headerCount formattedData)
         \<and> map fst bd = map col_id cols
         \<and> map snd bd =
             concat (map (\<lambda>entry. map (\<lambda>h. map (cellValue entry h)
                                              [0..<maxRowCount formattedData])
                                      (headersOf entry)) formattedData)
         \<and> (\<forall>col \<in> set (map snd bd). length col = maxRowCount formattedData)
         \<and> maxRowCount formattedData = Max (rowCount ` set formattedData)))
   \<and> candidateIds formattedData =
        concat (map (\<lambda>(k, entry). map (\<lambda>h. columnPrefix k entry @ h) (headersOf entry))
                    (enumerate 0 formattedData))
   \<and> (\<forall>entry header r. ownRows entry \<le> r \<longrightarrow> cellValue entry header r = JStr [])
   \<and> ownRows (formattedOf selection) = rowCount (formattedOf selection)
   \<and> (\<forall>entry header r rows v.
         data entry = Some rows \<and> r < length rows \<and> map_of (own (rows ! r)) header = Some v \<longrightarrow>
         cellValue entry header r = (if truthy v then v else JStr []))
   \<and> (\<forall>entry header r rows.
         data entry = Some rows \<and> r < length rows \<and> map_of (own (rows ! r)) header = None \<and>
         (protoOf (rows ! r) = NullPrototype \<or>
            (protoOf (rows ! r) = ObjectPrototype \<and> header \<notin> set protoMembers)) \<longrightarrow>
         cellValue entry header r = JStr [])
   \<and> (\<forall>entry header r rows.
         data entry = Some rows \<and> r < length rows \<and> map_of (own (rows ! r)) header = None \<and>
         header \<in> set protoMembers \<and> protoOf (rows ! r) = ObjectPrototype \<longrightarrow>
         cellValue entry header r = JBuiltin header)
   \<and> convertGlobalSelectionData
        [formatted ''Sales'' [''Qty'']
           [plain [(''rowId'', JNum 11), (''Qty'', JNum 1)],
            plain [(''rowId'', JNum 12), (''Qty'', JNum 2)],
            plain [(''rowId'', JNum 13), (''Qty'', JNum 3)]],
         formatted ''Sales'' [''Qty'']
           [plain [(''rowId'', JNum 21), (''Qty'', JNum 9)],
            plain [(''rowId'', JNum 22), (''Qty'', JNum 8)]]]
       = Inr ([\<lparr>col_id = ''Sales_Qty'', col_label = ''Sales_Qty'', col_type = ''Text''\<rparr>,
               \<lparr>col_id = ''Sales_Qty_1'', col_label = ''Sales_Qty_1'', col_type = ''Text''\<rparr>],
              [(''Sales_Qty'', [JNum 1, JNum 2, JNum 3]),
               (''Sales_Qty_1'', [JNum 9, JNum 8, JStr ''''])])"
proof (intro conjI)
  show "formattedData \<noteq> [] \<and> (\<forall>entry \<in> set formattedData. headers entry \<noteq> None) \<and>
    0 < sum_list (map headerCount formattedData) \<and>
    ''__proto__'' \<notin> set (candidateIds formattedData) \<and>
    list_all ordinaryRows formattedData \<longrightarrow>
      (\<exists>cols bd. convertGlobalSelectionData formattedData = Inr (cols, bd)
         \<and> length cols = sum_list (map headerCount formattedData)
         \<and> map fst bd = map col_id cols
         \<and> map snd bd =
             concat (map (\<lambda>entry. map (\<lambda>h. map (cellValue entry h)
                                              [0..<maxRowCount formattedData])
                                      (headersOf entry)) formattedData)
         \<and> (\<forall>col \<in> set (map snd bd). length col = maxRowCount formattedData)
         \<and> maxRowCount formattedData = Max (rowCount ` set formattedData))"
  proof (intro impI, elim conjE)
    assume ne: "formattedData \<noteq> []" and pos: "0 < sum_list (map headerCount formattedData)"
      and np: "''__proto__'' \<notin> set (candidateIds formattedData)"
    let ?ids = "resolveAll [] (candidateIds formattedData)"
    let ?srcs = "columnSources 0 formattedData"
    let ?m = "maxRowCount formattedData"
    let ?bd = "zip ?ids (map (columnData ?m) ?srcs)"
    have len: "length ?ids = length ?srcs"
      by (simp add: length_resolveAll length_candidateIds length_columnSources)
    have own: "ownEntries ?bd = ?bd"
      by (rule ownEntries_all [OF resolveAll_no_proto [OF np]])
    have a: "convertGlobalSelectionData formattedData = Inr (map mkColumn ?ids, ?bd)"
      using convert_ok [OF ne pos] by (simp only: own)
    have b: "length (map mkColumn ?ids) = sum_list (map headerCount formattedData)"
      by (simp add: length_resolveAll length_candidateIds)
    have c: "map fst ?bd = map col_id (map mkColumn ?ids)"
      using len by (simp add: mkColumn_def comp_def)
    have d0: "map snd ?bd = map (columnData ?m) ?srcs"
      using len by simp
    have d: "map snd ?bd =
             concat (map (\<lambda>entry. map (\<lambda>h. map (cellValue entry h) [0..<?m])
                                      (headersOf entry)) formattedData)"
      unfolding d0 by (rule columnSources_data)
    have e: "\<forall>col \<in> set (map snd ?bd). length col = ?m"
      unfolding d by auto
    from a b c d e maxRowCount_Max [OF ne]
    show "\<exists>cols bd. convertGlobalSelectionData formattedData = Inr (cols, bd)
         \<and> length cols = sum_list (map headerCount formattedData)
         \<and> map fst bd = map col_id cols
         \<and> map snd bd =
             concat (map (\<lambda>entry. map (\<lambda>h. map (cellValue entry h)
                                              [0..<maxRowCount formattedData])
                                      (headersOf entry)) formattedData)
         \<and> (\<forall>col \<in> set (map snd bd). length col = maxRowCount formattedData)
         \<and> maxRowCount formattedData = Max (rowCount ` set formattedData)"
      by blast
  qed
  show "candidateIds formattedData =
        concat (map (\<lambda>(k, entry). map (\<lambda>h. columnPrefix k entry @ h) (headersOf entry))
                    (enumerate 0 formattedData))"
    by (simp add: candidateIds_def)
  show "\<forall>entry header r. ownRows entry \<le> r \<longrightarrow> cellValue entry header r = JStr []"
    by (simp add: cellValue_padding)
  show "ownRows (formattedOf selection) = rowCount (formattedOf selection)"
    by (rule formattedOf_rows)
  show "\<forall>entry header r rows v.
         data entry = Some rows \<and> r < length rows \<and> map_of (own (rows ! r)) header = Some v \<longrightarrow>
         cellValue entry header r = (if truthy v then v else JStr [])"
    by (simp add: cellValue_own)
  show "\<forall>entry header r rows.
         data entry = Some rows \<and> r < length rows \<and> map_of (own (rows ! r)) header = None \<and>
         (protoOf (rows ! r) = NullPrototype \<or>
            (protoOf (rows ! r) = ObjectPrototype \<and> header \<notin> set protoMembers)) \<longrightarrow>
         cellValue entry header r = JStr []"
    using cellValue_absent by blast
  show "\<forall>entry header r rows.
         data entry = Some rows \<and> r < length rows \<and> map_of (own (rows ! r)) header = None \<and>
         header \<in> set protoMembers \<and> protoOf (rows ! r) = ObjectPrototype \<longrightarrow>
         cellValue entry header r = JBuiltin header"
    using cellValue_inherited by blast
  show "convertGlobalSelectionData
        [formatted ''Sales'' [''Qty'']
           [plain [(''rowId'', JNum 11), (''Qty'', JNum 1)],
            plain [(''rowId'', JNum 12), (''Qty'', JNum 2)],
            plain [(''rowId'', JNum 13), (''Qty'', JNum 3)]],
         formatted ''Sales'' [''Qty'']
           [plain [(''rowId'', JNum 21), (''Qty'', JNum 9)],
            plain [(''rowId'', JNum 22), (''Qty'', JNum 8)]]]
       = Inr ([\<lparr>col_id = ''Sales_Qty'', col_label = ''Sales_Qty'', col_type = ''Text''\<rparr>,
               \<lparr>col_id = ''Sales_Qty_1'', col_label = ''Sales_Qty_1'', col_type = ''Text''\<rparr>],
              [(''Sales_Qty'', [JNum 1, JNum 2, JNum 3]),
               (''Sales_Qty_1'', [JNum 9, JNum 8, JStr ''''])])"
    by (rule convert_example_sales)
qed

theorem merge_layout_witness:
  "[formatted ''Sales'' [''Qty'', ''Price''] [plain [(''rowId'', JNum 1), (''Qty'', JNum 5)]],
    formatted ''Stock'' [''Item''] []] \<noteq> []
   \<and> headers (formatted ''Sales'' [''Qty'', ''Price'']
                [plain [(''rowId'', JNum 1), (''Qty'', JNum 5)]]) \<noteq> None
   \<and> headers (formatted ''Stock'' [''Item''] []) \<noteq> None
   \<and> candidateIds
        [formatted ''Sales'' [''Qty'', ''Price''] [plain [(''rowId'', JNum 1), (''Qty'', JNum 5)]],
         formatted ''Stock'' [''Item''] []] = [''Sales_Qty'', ''Sales_Price'', ''Stock_Item'']
   \<and> list_all ordinaryRows
        [formatted ''Sales'' [''Qty'', ''Price''] [plain [(''rowId'', JNum 1), (''Qty'', JNum 5)]],
         formatted ''Stock'' [''Item''] []]
   \<and> (\<exists>cols bd. convertGlobalSelectionData
          [formatted ''Sales'' [''Qty'', ''Price'']
             [plain [(''rowId'', JNum 1), (''Qty'', JNum 5)]],
           formatted ''Stock'' [''Item''] []] = Inr (cols, bd)
        \<and> length cols = 3
        \<and> map snd bd = [[JNum 5], [JStr ''''], [JStr '''']])"
proof -
  let ?a = "formatted ''Sales'' [''Qty'', ''Price''] [plain [(''rowId'', JNum 1), (''Qty'', JNum 5)]]"
  let ?b = "formatted ''Stock'' [''Item''] []"
  have h1: "[?a, ?b] \<noteq> []" by simp
  have h2: "\<forall>entry \<in> set [?a, ?b]. headers entry \<noteq> None" by (simp add: formatted_def)
  have s: "sum_list (map headerCount [?a, ?b]) = 3"
    by (simp add: headerCount_def headersOf_def formatted_def)
  then have h3: "0 < sum_list (map headerCount [?a, ?b])" by simp
  have c: "candidateIds [?a, ?b] = [''Sales_Qty'', ''Sales_Price'', ''Stock_Item'']"
    by code_simp
  then have h4: "''__proto__'' \<notin> set (candidateIds [?a, ?b])" by simp
  have m: "maxRowCount [?a, ?b] = 1" by (simp add: maxRowCount_def formatted_def)
  have v: "concat (map (\<lambda>entry. map (\<lambda>h. map (cellValue entry h) [0..<1]) (headersOf entry))
             [?a, ?b]) = [[JNum 5], [JStr ''''], [JStr '''']]"
    by (simp add: headersOf_def formatted_def cellValue_def obj_get_def js_or_def plain_def
        protoMembers_def)
  have h5: "list_all ordinaryRows [?a, ?b]"
    by (simp add: ordinaryRows_def ordinary_def formatted_def plain_def)
  have hyps: "[?a, ?b] \<noteq> [] \<and> (\<forall>entry \<in> set [?a, ?b]. headers entry \<noteq> None) \<and>
      0 < sum_list (map headerCount [?a, ?b]) \<and> ''__proto__'' \<notin> set (candidateIds [?a, ?b]) \<and>
      list_all ordinaryRows [?a, ?b]"
    using h1 h2 h3 h4 h5 by (intro conjI)
  obtain cols bd where r: "convertGlobalSelectionData [?a, ?b] = Inr (cols, bd)"
      "length cols = sum_list (map headerCount [?a, ?b])"
      "map snd bd = concat (map (\<lambda>entry. map (\<lambda>h. map (cellValue entry h)
                       [0..<maxRowCount [?a, ?b]]) (headersOf entry)) [?a, ?b])"
    using merge_layout [of "[?a, ?b]", THEN conjunct1, THEN mp, OF hyps]
    by (elim exE conjE) (rule that)
  from r(2) s have l: "length cols = 3" by simp
  from r(3) m v have d: "map snd bd = [[JNum 5], [JStr ''''], [JStr '''']]" by simp
  have e: "\<exists>cols bd. convertGlobalSelectionData [?a, ?b] = Inr (cols, bd)
        \<and> length cols = 3 \<and> map snd bd = [[JNum 5], [JStr ''''], [JStr '''']]"
    using r(1) l d by (intro exI conjI)
  have h2a: "headers ?a \<noteq> None" and h2b: "headers ?b \<noteq> None"
    by (simp_all add: formatted_def)
  from h1 h2a h2b c h5 e show ?thesis by (intro conjI)
qed

theorem merge_layout_counterexample:
  "headers (formatted ''Sales'' [] [plain [(''rowId'', JNum 1)]]) = Some []
   \<and> convertGlobalSelectionData [formatted ''Sales'' [] [plain [(''rowId'', JNum 1)]]]
       = Inl NoValidColumns
   \<and> convertGlobalSelectionData [formatted ''T'' [''constructor''] [plain [(''rowId'', JNum 1)]]]
       = Inr ([\<lparr>col_id = ''T_constructor'', col_label = ''T_constructor'', col_type = ''Text''\<rparr>],
              [(''T_constructor'', [JBuiltin ''constructor''])])
   \<and> convertGlobalSelectionData
        [formatted ''_'' [''proto__''] [plain [(''rowId'', JNum 1), (''proto__'', JStr ''x'')]]]
       = Inr ([\<lparr>col_id = ''__proto__'', col_label = ''__proto__'', col_type = ''Text''\<rparr>], [])"
  by code_simp

lemma convert_columns:
  assumes "convertGlobalSelectionData formattedData = Inr (cols, bd)"
  shows "cols = map mkColumn (resolveAll [] (candidateIds formattedData))"
  using assms
  by (simp add: convert_addColumns Let_def columnSources_candidates split: if_splits)

lemma safeName_word: "c \<in> set (safeName t) \<Longrightarrow> isWordChar c"
  by (auto simp: safeName_def isWordChar_def)

lemma convert_example_sheet1:
  "convertGlobalSelectionData
      [formatted ''Sheet1'' [''Amount''] [plain [(''rowId'', JNum 1), (''Amount'', JStr ''10'')]],
       formatted ''Sheet1'' [''Amount''] [plain [(''rowId'', JNum 7), (''Amount'', JStr ''20'')]]]
     = Inr ([\<lparr>col_id = ''Sheet1_Amount'', col_label = ''Sheet1_Amount'', col_type = ''Text''\<rparr>,
             \<lparr>col_id = ''Sheet1_Amount_1'', col_label = ''Sheet1_Amount_1'',
              col_type = ''Text''\<rparr>],
            [(''Sheet1_Amount'', [JStr ''10'']), (''Sheet1_Amount_1'', [JStr ''20''])])"
  by code_simp

text \<open>
  Claim C2. Whenever the merger returns a grid, its column ids are pairwise distinct and
  every label equals its id. The candidate ids are, selection by selection and header by
  header, the sanitized table name (or \<open>S\<close> and the selection's position when the name
  is empty), an underscore and the header; the id of each column is its candidate when
  no earlier column has that id, and otherwise the candidate with the first suffix
  \<open>_1\<close>, \<open>_2\<close>, ... that no earlier column has. Two selections of table \<open>Sheet1\<close> with
  header \<open>Amount\<close> give \<open>Sheet1_Amount\<close> and \<open>Sheet1_Amount_1\<close>.
\<close>

theorem column_ids_unique:
  "(convertGlobalSelectionData formattedData = Inr (cols, bd) \<longrightarrow>
      distinct (map col_id cols)
      \<and> map col_label cols = map col_id cols
      \<and> length cols = length (candidateIds formattedData)
      \<and> (\<forall>p < length cols.
            firstUnused (map col_id (take p cols)) (candidateIds formattedData ! p)
              (col_id (cols ! p))))
   \<and> candidateIds formattedData =
        concat (map (\<lambda>(k, entry). map (\<lambda>h. columnPrefix k entry @ h) (headersOf entry))
                    (enumerate 0 formattedData))
   \<and> columnPrefix k entry =
        safeName (if table entry \<noteq> [] then table entry else ''S'' @ decimal (k + 1)) @ ''_''
   \<and> length (safeName t) = length t
   \<and> (\<forall>i < length t. safeName t ! i = (if isWordChar (t ! i) then t ! i else CHR ''_''))
   \<and> convertGlobalSelectionData
        [formatted ''Sheet1'' [''Amount''] [plain [(''rowId'', JNum 1), (''Amount'', JStr ''10'')]],
         formatted ''Sheet1'' [''Amount''] [plain [(''rowId'', JNum 7), (''Amount'', JStr ''20'')]]]
       = Inr ([\<lparr>col_id = ''Sheet1_Amount'', col_label = ''Sheet1_Amount'',
                col_type = ''Text''\<rparr>,
               \<lparr>col_id = ''Sheet1_Amount_1'', col_label = ''Sheet1_Amount_1'',
                col_type = ''Text''\<rparr>],
              [(''Sheet1_Amount'', [JStr ''10'']), (''Sheet1_Amount_1'', [JStr ''20''])])"
proof -
  have general: "distinct (map col_id cols)
      \<and> map col_label cols = map col_id cols
      \<and> length cols = length (candidateIds formattedData)
      \<and> (\<forall>p < length cols.
            firstUnused (map col_id (take p cols)) (candidateIds formattedData ! p)
              (col_id (cols ! p)))"
    if ok: "convertGlobalSelectionData formattedData = Inr (cols, bd)"
  proof -
    let ?cs = "candidateIds formattedData"
    let ?ids = "resolveAll [] ?cs"
    have cols: "cols = map mkColumn ?ids" by (rule convert_columns [OF ok])
    have ids: "map col_id cols = ?ids" by (simp add: cols mkColumn_def comp_def)
    have lbl: "map col_label cols = ?ids" by (simp add: cols mkColumn_def comp_def)
    have len: "length cols = length ?cs" by (simp add: cols length_resolveAll)
    have nth: "firstUnused (map col_id (take p cols)) (?cs ! p) (col_id (cols ! p))"
      if p: "p < length cols" for p
    proof -
      from p len have "p < length ?cs" by simp
      from resolveAll_nth [OF this, of "[]"]
      have "firstUnused (take p ?ids) (?cs ! p) (?ids ! p)" by simp
      moreover have "map col_id (take p cols) = take p ?ids" by (simp add: ids flip: take_map)
      moreover from p have "col_id (cols ! p) = ?ids ! p" by (simp flip: ids)
      ultimately show ?thesis by simp
    qed
    from ids lbl len nth distinct_resolveAll [of "[]" ?cs] show ?thesis by simp
  qed
  have pre: "columnPrefix k entry =
        safeName (if table entry \<noteq> [] then table entry else ''S'' @ decimal (k + 1)) @ ''_''"
    by (simp add: columnPrefix_def)
  have sl: "length (safeName t) = length t" by (simp add: safeName_def)
  have sn: "\<forall>i < length t. safeName t ! i = (if isWordChar (t ! i) then t ! i else CHR ''_'')"
    by (simp add: safeName_def)
  from general pre sl sn convert_example_sheet1 show ?thesis
    unfolding candidateIds_def by blast
qed

theorem column_ids_unique_witness:
  "convertGlobalSelectionData
      [formatted ''Q 1'' [''A'', ''A'', ''A_1''] []]
     = Inr ([\<lparr>col_id = ''Q_1_A'', col_label = ''Q_1_A'', col_type = ''Text''\<rparr>,
             \<lparr>col_id = ''Q_1_A_1'', col_label = ''Q_1_A_1'', col_type = ''Text''\<rparr>,
             \<lparr>col_id = ''Q_1_A_1_1'', col_label = ''Q_1_A_1_1'', col_type = ''Text''\<rparr>],
            [(''Q_1_A'', []), (''Q_1_A_1'', []), (''Q_1_A_1_1'', [])])
   \<and> distinct [''Q_1_A'', ''Q_1_A_1'', ''Q_1_A_1_1'']
   \<and> candidateIds [formatted ''Q 1'' [''A'', ''A'', ''A_1''] []] = [''Q_1_A'', ''Q_1_A'', ''Q_1_A_1'']
   \<and> firstUnused [''Q_1_A'', ''Q_1_A_1''] ''Q_1_A_1'' ''Q_1_A_1_1''"
proof -
  let ?fd = "[formatted ''Q 1'' [''A'', ''A'', ''A_1''] []]"
  let ?cols = "[\<lparr>col_id = ''Q_1_A'', col_label = ''Q_1_A'', col_type = ''Text''\<rparr>,
             \<lparr>col_id = ''Q_1_A_1'', col_label = ''Q_1_A_1'', col_type = ''Text''\<rparr>,
             \<lparr>col_id = ''Q_1_A_1_1'', col_label = ''Q_1_A_1_1'', col_type = ''Text''\<rparr>]"
  let ?bd = "[(''Q_1_A'', []), (''Q_1_A_1'', []), (''Q_1_A_1_1'', [])]"
  have r: "convertGlobalSelectionData ?fd = Inr (?cols, ?bd)" by code_simp
  have c: "candidateIds ?fd = [''Q_1_A'', ''Q_1_A'', ''Q_1_A_1'']" by code_simp
  from column_ids_unique [of ?fd ?cols ?bd] r
  have d: "distinct (map col_id ?cols)"
    and f: "\<forall>p < length ?cols. firstUnused (map col_id (take p ?cols)) (candidateIds ?fd ! p)
              (col_id (?cols ! p))"
    by blast+
  have "2 < length ?cols" by simp
  with f have "firstUnused (map col_id (take 2 ?cols)) (candidateIds ?fd ! 2) (col_id (?cols ! 2))"
    by blast
  then have f2: "firstUnused [''Q_1_A'', ''Q_1_A_1''] ''Q_1_A_1'' ''Q_1_A_1_1''"
    by (simp add: c)
  from d have d2: "distinct [''Q_1_A'', ''Q_1_A_1'', ''Q_1_A_1_1'']" by simp
  from r d2 c f2 show ?thesis by blast
qed

lemma headerCount_None: "headers entry = None \<Longrightarrow> headerCount entry = 0"
  by (simp add: headerCount_def headersOf_def)

text \<open>
  Claim C7. The merger fails in exactly two cases, each with one of the two errors the
  spec calls \<open>NoDataError\<close>: on the empty list, and on a non-empty list that yields no
  column, which is the case exactly when no selection contributes a header (so in
  particular when every selection lacks a headers array). In every other case it returns
  a grid.
\<close>

theorem merge_errors:
  "(convertGlobalSelectionData formattedData = Inl NoFormattedData \<longleftrightarrow> formattedData = [])
   \<and> (convertGlobalSelectionData formattedData = Inl NoValidColumns \<longleftrightarrow>
        formattedData \<noteq> [] \<and> sum_list (map headerCount formattedData) = 0)
   \<and> (formattedData \<noteq> [] \<and> 0 < sum_list (map headerCount formattedData) \<longrightarrow>
        (\<exists>cols bd. convertGlobalSelectionData formattedData = Inr (cols, bd) \<and>
           length cols = sum_list (map headerCount formattedData)))
   \<and> (\<forall>e. convertGlobalSelectionData formattedData = Inl e \<longrightarrow> is_NoDataError e)
   \<and> (formattedData \<noteq> [] \<and> (\<forall>entry \<in> set formattedData. headers entry = None) \<longrightarrow>
        convertGlobalSelectionData formattedData = Inl NoValidColumns)"
proof (cases "formattedData = []")
  case True
  then show ?thesis
    by (simp add: convertGlobalSelectionData_def is_NoDataError_def)
next
  case ne: False
  show ?thesis
  proof (cases "sum_list (map headerCount formattedData) = 0")
    case True
    then have "length (columnSources 0 formattedData) = 0"
      by (simp only: length_columnSources)
    then have "columnSources 0 formattedData = []" by simp
    with ne have r: "convertGlobalSelectionData formattedData = Inl NoValidColumns"
      by (simp add: convert_addColumns)
    from ne True r show ?thesis by (simp add: is_NoDataError_def)
  next
    case False
    then have pos: "0 < sum_list (map headerCount formattedData)" by linarith
    note r = convert_ok [OF ne pos]
    have l: "length (map mkColumn (resolveAll [] (candidateIds formattedData)))
        = sum_list (map headerCount formattedData)"
      by (simp add: length_resolveAll length_candidateIds)
    have nn: "\<not> (\<forall>entry \<in> set formattedData. headers entry = None)"
    proof
      assume "\<forall>entry \<in> set formattedData. headers entry = None"
      then have "\<forall>entry \<in> set formattedData. headerCount entry = 0"
        by (simp add: headerCount_None)
      then have "sum_list (map headerCount formattedData) = 0" by simp
      with False show False by simp
    qed
    from ne False pos r l nn show ?thesis by simp
  qed
qed

theorem merge_errors_witness:
  "convertGlobalSelectionData [] = Inl NoFormattedData
   \<and> convertGlobalSelectionData
        [\<lparr>fmt_id = ''a'', sheet = ''S'', table = ''T'', fmt_timestamp = 0, rowCount = 1,
          columnCount = 1, headers = None, data = Some [plain [(''rowId'', JNum 1)]]\<rparr>]
       = Inl NoValidColumns
   \<and> is_NoDataError NoValidColumns
   \<and> (\<exists>cols bd. convertGlobalSelectionData [formatted ''T'' [''H''] []] = Inr (cols, bd) \<and>
         length cols = 1)"
proof -
  let ?bad = "\<lparr>fmt_id = ''a'', sheet = ''S'', table = ''T'', fmt_timestamp = 0, rowCount = 1,
          columnCount = 1, headers = None, data = Some [plain [(''rowId'', JNum 1)]]\<rparr>"
  have a: "convertGlobalSelectionData [] = Inl NoFormattedData"
    using merge_errors [of "[]"] by blast
  have "[?bad] \<noteq> [] \<and> (\<forall>entry \<in> set [?bad]. headers entry = None)" by simp
  with merge_errors [of "[?bad]"]
  have b: "convertGlobalSelectionData [?bad] = Inl NoValidColumns" by blast
  with merge_errors [of "[?bad]"] have c: "is_NoDataError NoValidColumns" by metis
  have "[formatted ''T'' [''H''] []] \<noteq> [] \<and>
      0 < sum_list (map headerCount [formatted ''T'' [''H''] []])"
    by (simp add: headerCount_def headersOf_def formatted_def)
  with merge_errors [of "[formatted ''T'' [''H''] []]"]
  have d: "\<exists>cols bd. convertGlobalSelectionData [formatted ''T'' [''H''] []] = Inr (cols, bd) \<and>
         length cols = 1"
    by (simp add: headerCount_def headersOf_def formatted_def)
  from a b c d show ?thesis by blast
qed

section \<open>Properties of the materializer\<close>

lemma bindE_cases:
  "m s = (r, s') \<Longrightarrow> bindE m f s = (case r of Inl e \<Rightarrow> (Inl e, s') | Inr a \<Rightarrow> f a s')"
  by (simp add: bindE_def split: sum.splits)

lemma sent_docSendAction: "sent (snd (docSendAction api a d)) = sent d @ [a]"
  by (simp add: docSendAction_def split: prod.splits)

lemma fst_docSendAction: "fst (docSendAction api a d) = fst (sendAction api a (host d))"
  by (simp add: docSendAction_def split: prod.splits)

lemma sent_navigateTo: "sent (snd (navigateTo api t d)) = sent d"
  by (simp add: navigateTo_def Let_def split: option.splits prod.splits)

lemma sent_addData:
  "sent (snd (addData api n bd d)) =
     sent d @ (case bd of [] \<Rightarrow> []
               | (k, firstColumnData) # others \<Rightarrow>
                   [BulkAddRecord n (replicate (length firstColumnData) JNull) bd])"
proof (cases bd)
  case Nil
  then show ?thesis by (simp add: addData_def returnE_def)
next
  case (Cons kv others)
  obtain k v where kv: "kv = (k, v)" by (cases kv)
  let ?a = "BulkAddRecord n (replicate (length v) JNull) bd"
  obtain r d' where s: "docSendAction api ?a d = (r, d')" by (cases "docSendAction api ?a d")
  from sent_docSendAction [of api ?a d] s have d': "sent d' = sent d @ [?a]" by simp
  show ?thesis
    using Cons kv s d'
    by (cases r) (simp_all add: addData_def Let_def bindE_def returnE_def)
qed

lemma createNewSheet_sent:
  assumes g: "generateUniqueTableName (rowModels api (host d)) (baseTableName opts) 10 = Inr n"
    and a: "fst (sendAction api (AddTable n (columns opts)) (host d)) = Inr r"
  shows "sent (snd (createNewSheet api opts d)) =
           sent d @ AddTable n (columns opts) # bulkPart n (bulkData opts)"
    and "\<forall>res. fst (createNewSheet api opts d) = Inr res \<longrightarrow> res = n"
proof -
  let ?add = "AddTable n (columns opts)"
  obtain r1 d1 where s1: "docSendAction api ?add d = (r1, d1)" by (cases "docSendAction api ?add d")
  from fst_docSendAction [of api ?add d] s1 a have r1: "r1 = Inr r" by simp
  from sent_docSendAction [of api ?add d] s1 have d1: "sent d1 = sent d @ [?add]" by simp
  obtain r2 d2 where s2: "addData api n (bulkData opts) d1 = (r2, d2)"
    by (cases "addData api n (bulkData opts) d1")
  from sent_addData [of api n "bulkData opts" d1] s2 d1
  have d2: "sent d2 = sent d @ ?add # bulkPart n (bulkData opts)" by (simp add: bulkPart_def)
  let ?nav = "if navigateToSheet opts \<noteq> Some False then navigateTo api n else returnE ()"
  obtain r3 d3 where s3: "?nav d2 = (r3, d3)" by (cases "?nav d2")
  have d3: "sent d3 = sent d2"
  proof (cases "navigateToSheet opts \<noteq> Some False")
    case True
    with s3 sent_navigateTo [of api n d2] show ?thesis by simp
  next
    case False
    with s3 show ?thesis by (simp add: returnE_def)
  qed
  have c: "createNewSheet api opts d =
      (case r2 of Inl e \<Rightarrow> (Inl e, d2)
       | Inr u \<Rightarrow> (case r3 of Inl e \<Rightarrow> (Inl e, d3) | Inr u \<Rightarrow> (Inr n, d3)))"
    unfolding createNewSheet_def g sum.case
      bindE_cases [of "docSendAction api ?add" d r1 d1, OF s1] r1
      bindE_cases [of "addData api n (bulkData opts)" d1 r2 d2, OF s2]
      bindE_cases [of ?nav d2 r3 d3, OF s3] returnE_def ..
  from c d2 d3 show "sent (snd (createNewSheet api opts d)) =
           sent d @ AddTable n (columns opts) # bulkPart n (bulkData opts)"
    by (simp split: sum.splits)
  from c show "\<forall>res. fst (createNewSheet api opts d) = Inr res \<longrightarrow> res = n"
    by (simp split: sum.splits)
qed

lemma createNewSheet_sent_addFails:
  assumes g: "generateUniqueTableName (rowModels api (host d)) (baseTableName opts) 10 = Inr n"
    and a: "fst (sendAction api (AddTable n (columns opts)) (host d)) = Inl e"
  shows "sent (snd (createNewSheet api opts d)) = sent d @ [AddTable n (columns opts)]"
    and "fst (createNewSheet api opts d) = Inl e"
proof -
  let ?add = "AddTable n (columns opts)"
  obtain r1 d1 where s1: "docSendAction api ?add d = (r1, d1)" by (cases "docSendAction api ?add d")
  from fst_docSendAction [of api ?add d] s1 a have r1: "r1 = Inl e" by simp
  from sent_docSendAction [of api ?add d] s1 have d1: "sent d1 = sent d @ [?add]" by simp
  have c: "createNewSheet api opts d = (Inl e, d1)"
    by (simp add: createNewSheet_def g bindE_def s1 r1)
  from c d1 show "sent (snd (createNewSheet api opts d)) = sent d @ [AddTable n (columns opts)]"
    by simp
  from c show "fst (createNewSheet api opts d) = Inl e" by simp
qed

lemma createNewSheet_noName:
  assumes g: "generateUniqueTableName (rowModels api (host d)) (baseTableName opts) 10 = Inl e"
  shows "createNewSheet api opts d = (Inl e, d)"
  by (simp add: createNewSheet_def g)

lemma newlySent_append: "sent after = sent before @ xs \<Longrightarrow> newlySent before after = xs"
  by (simp add: newlySent_def)

lemma convert_bulk:
  assumes "convertGlobalSelectionData formattedData = Inr (cols, bd)"
  shows "bd \<noteq> [] \<longleftrightarrow> (\<exists>c \<in> set cols. col_id c \<noteq> ''__proto__'')"
    and "bd \<noteq> [] \<longrightarrow>
           bulkPart n bd = [BulkAddRecord n (replicate (maxRowCount formattedData) JNull) bd]"
proof -
  let ?ids = "resolveAll [] (candidateIds formattedData)"
  let ?srcs = "columnSources 0 formattedData"
  let ?m = "maxRowCount formattedData"
  let ?cols = "map (columnData ?m) ?srcs"
  from assms have cols: "cols = map mkColumn ?ids" and bd: "bd = ownEntries (zip ?ids ?cols)"
    by (simp_all add: convert_addColumns Let_def columnSources_candidates split: if_splits)
  have len: "length ?ids = length ?cols"
    by (simp add: length_resolveAll length_candidateIds length_columnSources)
  then have keys: "fst ` set (zip ?ids ?cols) = set ?ids"
    by (metis map_fst_zip set_map)
  have "bd \<noteq> [] \<longleftrightarrow> (\<exists>kv \<in> set (zip ?ids ?cols). fst kv \<noteq> ''__proto__'')"
    by (simp add: bd ownEntries_def filter_empty_conv)
  also have "\<dots> \<longleftrightarrow> (\<exists>i \<in> fst ` set (zip ?ids ?cols). i \<noteq> ''__proto__'')"
    by blast
  also have "\<dots> \<longleftrightarrow> (\<exists>c \<in> set cols. col_id c \<noteq> ''__proto__'')"
    by (simp add: keys cols mkColumn_def)
  finally show "bd \<noteq> [] \<longleftrightarrow> (\<exists>c \<in> set cols. col_id c \<noteq> ''__proto__'')" .
  show "bd \<noteq> [] \<longrightarrow>
           bulkPart n bd = [BulkAddRecord n (replicate (maxRowCount formattedData) JNull) bd]"
  proof
    assume "bd \<noteq> []"
    then obtain k col rest where c: "bd = (k, col) # rest" by (cases bd) auto
    then have "(k, col) \<in> set bd" by simp
    then have "(k, col) \<in> set (zip ?ids ?cols)"
      by (simp add: bd ownEntries_def)
    then have "col \<in> set ?cols" by (rule set_zip_rightD)
    then have "length col = ?m" by (auto simp: columnData_def)
    with c show "bulkPart n bd = [BulkAddRecord n (replicate ?m JNull) bd]"
      by (simp add: bulkPart_def)
  qed
qed

text \<open>
  Claim C4, amended. After a successful create-table call, the bulk-insert action is sent
  exactly when \<open>bulkData\<close> has at least one key, whatever the row count; it is sent with
  the resolved table id, as many \<open>null\<close> row ids as the first column has values, and
  \<open>bulkData\<close>. The \<open>bulkData\<close> of a grid the merger returned has a key exactly when some
  column id differs from \<open>__proto__\<close> (an id that makes no key), and then the action is
  sent with as many \<open>null\<close> row ids as the grid has rows, also when that is none.
\<close>

theorem bulk_insert_guard:
  "(generateUniqueTableName (rowModels api (host d)) (baseTableName opts) 10 = Inr n \<and>
    fst (sendAction api (AddTable n (columns opts)) (host d)) = Inr r \<longrightarrow>
      newlySent d (snd (createNewSheet api opts d)) =
        AddTable n (columns opts) # bulkPart n (bulkData opts)
      \<and> ((\<exists>a \<in> set (newlySent d (snd (createNewSheet api opts d))). isBulkAddRecord a)
            \<longleftrightarrow> bulkData opts \<noteq> []))
   \<and> bulkPart n [] = []
   \<and> bulkPart n ((k, firstColumnData) # others) =
        [BulkAddRecord n (replicate (length firstColumnData) JNull) ((k, firstColumnData) # others)]
   \<and> (convertGlobalSelectionData formattedData = Inr (cols, bd) \<longrightarrow>
        (bd \<noteq> [] \<longleftrightarrow> (\<exists>c \<in> set cols. col_id c \<noteq> ''__proto__'')) \<and>
        (bd \<noteq> [] \<longrightarrow>
           bulkPart n bd = [BulkAddRecord n (replicate (maxRowCount formattedData) JNull) bd]))"
proof -
  have a: "newlySent d (snd (createNewSheet api opts d)) =
        AddTable n (columns opts) # bulkPart n (bulkData opts)
      \<and> ((\<exists>a \<in> set (newlySent d (snd (createNewSheet api opts d))). isBulkAddRecord a)
            \<longleftrightarrow> bulkData opts \<noteq> [])"
    if g: "generateUniqueTableName (rowModels api (host d)) (baseTableName opts) 10 = Inr n"
      and s: "fst (sendAction api (AddTable n (columns opts)) (host d)) = Inr r"
  proof -
    have t: "newlySent d (snd (createNewSheet api opts d)) =
        AddTable n (columns opts) # bulkPart n (bulkData opts)"
      by (rule newlySent_append [OF createNewSheet_sent(1) [OF g s]])
    have "(\<exists>a \<in> set (AddTable n (columns opts) # bulkPart n (bulkData opts)). isBulkAddRecord a)
            \<longleftrightarrow> bulkData opts \<noteq> []"
      by (cases "bulkData opts") (auto simp: bulkPart_def)
    with t show ?thesis by simp
  qed
  have b: "bulkPart n [] = []" by (simp add: bulkPart_def)
  have c: "bulkPart n ((k, firstColumnData) # others) =
        [BulkAddRecord n (replicate (length firstColumnData) JNull) ((k, firstColumnData) # others)]"
    by (simp add: bulkPart_def)
  from a b c convert_bulk(1) [of formattedData cols bd] convert_bulk(2) [of formattedData cols bd n]
  show ?thesis by blast
qed

theorem bulk_insert_guard_witness:
  "generateUniqueTableName (rowModels (sampleApi id) (host emptyDoc)) ''New'' 10 = Inr ''New''
   \<and> fst (sendAction (sampleApi id) (AddTable ''New'' [mkColumn ''T_H'']) (host emptyDoc))
        = Inr (JStr ''New'')
   \<and> newlySent emptyDoc (snd (createNewSheet (sampleApi id)
        \<lparr>baseTableName = ''New'', columns = [mkColumn ''T_H''],
         bulkData = [(''T_H'', [JStr ''x'', JStr ''y''])], navigateToSheet = None\<rparr> emptyDoc))
       = [AddTable ''New'' [mkColumn ''T_H''],
          BulkAddRecord ''New'' [JNull, JNull] [(''T_H'', [JStr ''x'', JStr ''y''])]]
   \<and> newlySent emptyDoc (snd (createNewSheet (sampleApi id)
        \<lparr>baseTableName = ''New'', columns = [mkColumn ''T_H''],
         bulkData = [], navigateToSheet = None\<rparr> emptyDoc))
       = [AddTable ''New'' [mkColumn ''T_H'']]
   \<and> convertGlobalSelectionData
        [formatted ''_'' [''proto__''] [plain [(''rowId'', JNum 1), (''proto__'', JStr ''x'')]]]
       = Inr ([mkColumn ''__proto__''], [])
   \<and> newlySent emptyDoc (snd (createNewSheet (sampleApi id)
        \<lparr>baseTableName = ''New'', columns = [mkColumn ''__proto__''],
         bulkData = [], navigateToSheet = None\<rparr> emptyDoc))
       = [AddTable ''New'' [mkColumn ''__proto__'']]"
proof -
  let ?o1 = "\<lparr>baseTableName = ''New'', columns = [mkColumn ''T_H''],
         bulkData = [(''T_H'', [JStr ''x'', JStr ''y''])], navigateToSheet = None\<rparr>"
  let ?o2 = "\<lparr>baseTableName = ''New'', columns = [mkColumn ''T_H''],
         bulkData = [], navigateToSheet = None\<rparr>"
  have g: "generateUniqueTableName (rowModels (sampleApi id) (host emptyDoc)) ''New'' 10 = Inr ''New''"
    by code_simp
  have s: "fst (sendAction (sampleApi id) (AddTable ''New'' [mkColumn ''T_H'']) (host emptyDoc))
        = Inr (JStr ''New'')"
    by (simp add: sampleApi_def emptyDoc_def)
  let ?o3 = "\<lparr>baseTableName = ''New'', columns = [mkColumn ''__proto__''],
         bulkData = [], navigateToSheet = None\<rparr>"
  have s3: "fst (sendAction (sampleApi id) (AddTable ''New'' [mkColumn ''__proto__''])
        (host emptyDoc)) = Inr (JStr ''New'')"
    by (simp add: sampleApi_def emptyDoc_def)
  have a: "newlySent emptyDoc (snd (createNewSheet (sampleApi id) ?o1 emptyDoc))
      = AddTable ''New'' [mkColumn ''T_H''] # bulkPart ''New'' [(''T_H'', [JStr ''x'', JStr ''y''])]"
    using bulk_insert_guard [of "sampleApi id" emptyDoc ?o1 "''New''" "JStr ''New''",
        THEN conjunct1, THEN mp, OF conjI [OF _ _], THEN conjunct1] g s
    by simp
  have b: "newlySent emptyDoc (snd (createNewSheet (sampleApi id) ?o2 emptyDoc))
      = AddTable ''New'' [mkColumn ''T_H''] # bulkPart ''New'' []"
    using bulk_insert_guard [of "sampleApi id" emptyDoc ?o2 "''New''" "JStr ''New''",
        THEN conjunct1, THEN mp, OF conjI [OF _ _], THEN conjunct1] g s
    by simp
  have c: "newlySent emptyDoc (snd (createNewSheet (sampleApi id) ?o3 emptyDoc))
      = AddTable ''New'' [mkColumn ''__proto__''] # bulkPart ''New'' []"
    using bulk_insert_guard [of "sampleApi id" emptyDoc ?o3 "''New''" "JStr ''New''",
        THEN conjunct1, THEN mp, OF conjI [OF _ _], THEN conjunct1] g s3
    by simp
  have m: "convertGlobalSelectionData
        [formatted ''_'' [''proto__''] [plain [(''rowId'', JNum 1), (''proto__'', JStr ''x'')]]]
       = Inr ([mkColumn ''__proto__''], [])"
    by code_simp
  from g s a b c m show ?thesis by (simp add: bulkPart_def)
qed

theorem bulk_insert_guard_counterexample:
  "convertGlobalSelectionData [formatted ''T'' [''H''] []]
     = Inr ([\<lparr>col_id = ''T_H'', col_label = ''T_H'', col_type = ''Text''\<rparr>], [(''T_H'', [])])
   \<and> maxRowCount [formatted ''T'' [''H''] []] = 0
   \<and> createNewSheet (sampleApi id)
        \<lparr>baseTableName = ''New'',
         columns = [\<lparr>col_id = ''T_H'', col_label = ''T_H'', col_type = ''Text''\<rparr>],
         bulkData = [(''T_H'', [])], navigateToSheet = Some True\<rparr> emptyDoc
     = (Inr ''New'',
        \<lparr>host = [\<lparr>tableId_peek = ''New'', rawViewSectionRef_peek = 1\<rparr>],
         sent = [AddTable ''New'' [\<lparr>col_id = ''T_H'', col_label = ''T_H'', col_type = ''Text''\<rparr>],
                 BulkAddRecord ''New'' [] [(''T_H'', [])]]\<rparr>)"
  by code_simp

text \<open>
  Claim C5, amended. The table id of every action the materializer sends, the bulk
  insert included, and the id it returns, is the name its own resolver computed from the
  tables present before the call; the value the create-table action answers with is not
  consulted.
\<close>

theorem bulk_insert_table_id:
  "generateUniqueTableName (rowModels api (host d)) (baseTableName opts) 10 = Inr n \<longrightarrow>
     (\<forall>a \<in> set (newlySent d (snd (createNewSheet api opts d))). actionTable a = n)
     \<and> (\<forall>res. fst (createNewSheet api opts d) = Inr res \<longrightarrow> res = n)
     \<and> (\<forall>r. fst (sendAction api (AddTable n (columns opts)) (host d)) = Inr r \<longrightarrow>
           newlySent d (snd (createNewSheet api opts d)) =
             AddTable n (columns opts) # bulkPart n (bulkData opts))"
proof
  assume g: "generateUniqueTableName (rowModels api (host d)) (baseTableName opts) 10 = Inr n"
  have bp: "\<forall>a \<in> set (bulkPart n (bulkData opts)). actionTable a = n"
    by (cases "bulkData opts") (auto simp: bulkPart_def)
  show "(\<forall>a \<in> set (newlySent d (snd (createNewSheet api opts d))). actionTable a = n)
     \<and> (\<forall>res. fst (createNewSheet api opts d) = Inr res \<longrightarrow> res = n)
     \<and> (\<forall>r. fst (sendAction api (AddTable n (columns opts)) (host d)) = Inr r \<longrightarrow>
           newlySent d (snd (createNewSheet api opts d)) =
             AddTable n (columns opts) # bulkPart n (bulkData opts))"
  proof (cases "fst (sendAction api (AddTable n (columns opts)) (host d))")
    case (Inl e)
    from newlySent_append [OF createNewSheet_sent_addFails(1) [OF g Inl]]
      createNewSheet_sent_addFails(2) [OF g Inl] Inl
    show ?thesis by simp
  next
    case (Inr r)
    from newlySent_append [OF createNewSheet_sent(1) [OF g Inr]]
      createNewSheet_sent(2) [OF g Inr] Inr bp
    show ?thesis by simp
  qed
qed

theorem bulk_insert_table_id_witness:
  "generateUniqueTableName (rowModels (sampleApi safeName) [\<lparr>tableId_peek = ''My Sheet'',
       rawViewSectionRef_peek = 1\<rparr>]) ''My Sheet'' 10 = Inr ''My Sheet_1''
   \<and> fst (createNewSheet (sampleApi safeName)
        \<lparr>baseTableName = ''My Sheet'', columns = [mkColumn ''T_H''],
         bulkData = [(''T_H'', [JStr ''x''])], navigateToSheet = None\<rparr>
        \<lparr>host = [\<lparr>tableId_peek = ''My Sheet'', rawViewSectionRef_peek = 1\<rparr>], sent = []\<rparr>)
       = Inr ''My Sheet_1''
   \<and> newlySent \<lparr>host = [\<lparr>tableId_peek = ''My Sheet'', rawViewSectionRef_peek = 1\<rparr>], sent = []\<rparr>
        (snd (createNewSheet (sampleApi safeName)
        \<lparr>baseTableName = ''My Sheet'', columns = [mkColumn ''T_H''],
         bulkData = [(''T_H'', [JStr ''x''])], navigateToSheet = None\<rparr>
        \<lparr>host = [\<lparr>tableId_peek = ''My Sheet'', rawViewSectionRef_peek = 1\<rparr>], sent = []\<rparr>))
       = [AddTable ''My Sheet_1'' [mkColumn ''T_H''],
          BulkAddRecord ''My Sheet_1'' [JNull] [(''T_H'', [JStr ''x''])]]"
proof -
  let ?d = "\<lparr>host = [\<lparr>tableId_peek = ''My Sheet'', rawViewSectionRef_peek = 1\<rparr>],
             sent = []\<rparr> :: (MetaTableRec list) GristDoc"
  let ?o = "\<lparr>baseTableName = ''My Sheet'', columns = [mkColumn ''T_H''],
         bulkData = [(''T_H'', [JStr ''x''])], navigateToSheet = None\<rparr>"
  have g: "generateUniqueTableName (rowModels (sampleApi safeName) (host ?d)) (baseTableName ?o) 10
      = Inr ''My Sheet_1''"
    by code_simp
  have s: "fst (sendAction (sampleApi safeName) (AddTable ''My Sheet_1'' (columns ?o)) (host ?d))
      = Inr (JStr ''My_Sheet_1'')"
    by code_simp
  have "\<not> isl (fst (createNewSheet (sampleApi safeName) ?o ?d))"
    by code_simp
  then have ex: "\<exists>res. fst (createNewSheet (sampleApi safeName) ?o ?d) = Inr res"
    by (cases "fst (createNewSheet (sampleApi safeName) ?o ?d)") simp_all
  from bulk_insert_table_id [of "sampleApi safeName" ?d ?o "''My Sheet_1''"] g
  have a: "\<forall>res. fst (createNewSheet (sampleApi safeName) ?o ?d) = Inr res \<longrightarrow> res = ''My Sheet_1''"
    and b: "\<forall>r. fst (sendAction (sampleApi safeName) (AddTable ''My Sheet_1'' (columns ?o)) (host ?d)) = Inr r \<longrightarrow>
           newlySent ?d (snd (createNewSheet (sampleApi safeName) ?o ?d)) =
             AddTable ''My Sheet_1'' (columns ?o) # bulkPart ''My Sheet_1'' (bulkData ?o)"
    by blast+
  from ex a have r': "fst (createNewSheet (sampleApi safeName) ?o ?d) = Inr ''My Sheet_1''" by auto
  from b s have t: "newlySent ?d (snd (createNewSheet (sampleApi safeName) ?o ?d)) =
             AddTable ''My Sheet_1'' (columns ?o) # bulkPart ''My Sheet_1'' (bulkData ?o)"
    by blast
  from g r' t show ?thesis by (simp add: bulkPart_def)
qed

theorem bulk_insert_table_id_counterexample:
  "fst (sendAction (sampleApi safeName)
          (AddTable ''My Sheet'' [\<lparr>col_id = ''T_H'', col_label = ''T_H'', col_type = ''Text''\<rparr>]) [])
     = Inr (JStr ''My_Sheet'')
   \<and> createNewSheet (sampleApi safeName)
        \<lparr>baseTableName = ''My Sheet'',
         columns = [\<lparr>col_id = ''T_H'', col_label = ''T_H'', col_type = ''Text''\<rparr>],
         bulkData = [(''T_H'', [JStr ''x''])], navigateToSheet = Some True\<rparr> emptyDoc
     = (Inr ''My Sheet'',
        \<lparr>host = [\<lparr>tableId_peek = ''My_Sheet'', rawViewSectionRef_peek = 1\<rparr>],
         sent = [AddTable ''My Sheet'' [\<lparr>col_id = ''T_H'', col_label = ''T_H'', col_type = ''Text''\<rparr>],
                 BulkAddRecord ''My Sheet'' [JNull] [(''T_H'', [JStr ''x''])]]\<rparr>)"
  by code_simp

section \<open>Properties of the selection store and the formatter\<close>

lemma usable_None: "\<not> usable None"
  by (simp add: usable_def)

lemma usable_Some:
  "usable (Some entry) \<longleftrightarrow>
     tableId entry \<noteq> None \<and> tableId entry \<noteq> Some [] \<and>
     sheetName entry \<noteq> None \<and> sheetName entry \<noteq> Some [] \<and>
     rowIds entry \<noteq> None \<and> sel_fields entry \<noteq> None"
  by (simp add: usable_def)

lemma fieldStep_total:
  "fieldStep entry rowId field row =
     Inr (case fieldBody entry rowId field row of Inl e \<Rightarrow> row | Inr row' \<Rightarrow> row')"
  by (simp add: fieldStep_def split: sum.splits)

lemma formatRow_buildRow: "formatRow entry fs rowId = Inr (buildRow entry fs rowId)"
proof -
  have "forEachE (fieldStep entry rowId) fs row =
      Inr (fold (\<lambda>field row. case fieldBody entry rowId field row of Inl e \<Rightarrow> row | Inr row' \<Rightarrow> row')
             fs row)" for row
    by (induction fs arbitrary: row) (simp_all add: fieldStep_total)
  then show ?thesis by (simp add: formatRow_def buildRow_def)
qed

lemma rows_total:
  "forEachE (rowStep entry fs) rs acc = Inr (acc @ map (buildRow entry fs) rs)"
  by (induction rs arbitrary: acc) (simp_all add: rowStep_def formatRow_buildRow)

lemma formatEntry_usable:
  "usable (Some entry) \<Longrightarrow> formatEntry (Some entry) = Inr (Some (formattedOf entry))"
  by (auto simp: usable_Some formatEntry_def formattedOf_def orEmpty_def rows_total)

lemma formatEntry_unusable: "\<not> usable entryOpt \<Longrightarrow> formatEntry entryOpt = Inr None"
  by (cases entryOpt)
     (auto simp: usable_None usable_Some formatEntry_def split: option.splits)

lemma mapE_formatEntry:
  "mapE formatEntry sels =
     Inr (map (\<lambda>e. if usable e then map_option formattedOf e else None) sels)"
proof (induction sels)
  case Nil
  show ?case by simp
next
  case (Cons e sels)
  show ?case
  proof (cases "usable e")
    case True
    then obtain entry where "e = Some entry" by (cases e) (auto simp: usable_None)
    with True Cons.IH show ?thesis by (simp add: formatEntry_usable)
  next
    case False
    with Cons.IH show ?thesis by (simp add: formatEntry_unusable)
  qed
qed

lemma dropNulls_formatted:
  "dropNulls (map (\<lambda>e. if usable e then map_option formattedOf e else None) sels) =
     map formattedOf (dropNulls (filter usable sels))"
proof (induction sels)
  case Nil
  show ?case by simp
next
  case (Cons e sels)
  then show ?case by (cases e) (simp_all add: usable_None)
qed

lemma filter_usable_nonnull:
  "filter usable (filter (\<lambda>entry. entry \<noteq> None) sels) = filter usable sels"
proof (induction sels)
  case Nil
  show ?case by simp
next
  case (Cons e sels)
  then show ?case by (cases e) (simp_all add: usable_None)
qed

lemma getFormattedData_total:
  "getFormattedData sels = Inr (map formattedOf (dropNulls (filter usable sels)))"
  unfolding getFormattedData_def mapE_formatEntry sum.case dropNulls_formatted
    filter_usable_nonnull ..

lemma fieldBody_throwing: "throwing entry field \<Longrightarrow> isl (fieldBody entry rowId field row)"
  by (auto simp: throwing_def fieldBody_def isl_def split: sum.splits option.splits)

lemma fieldBody_ok:
  "\<not> throwing entry field \<Longrightarrow>
     \<exists>colId header cd. colId_peek field = Inr colId \<and> label_peek field = Inr header \<and>
        cellData entry = Some cd \<and>
        fieldBody entry rowId field row =
          Inr (obj_set row header (js_or (cellOf cd rowId colId) JNull))"
  by (cases "colId_peek field"; cases "label_peek field"; cases "cellData entry")
     (auto simp: throwing_def fieldBody_def)

lemma buildRow_skip:
  "buildRow entry fs rowId = buildRow entry (filter (\<lambda>f. \<not> throwing entry f) fs) rowId"
proof -
  let ?step = "\<lambda>field row. case fieldBody entry rowId field row of Inl e \<Rightarrow> row | Inr row' \<Rightarrow> row'"
  have "fold ?step fs row = fold ?step (filter (\<lambda>f. \<not> throwing entry f) fs) row" for row
  proof (induction fs arbitrary: row)
    case Nil
    show ?case by simp
  next
    case (Cons f fs)
    show ?case
    proof (cases "throwing entry f")
      case True
      from fieldBody_throwing [OF True, of rowId row] have "?step f row = row"
        by (auto simp: isl_def)
      with True Cons.IH show ?thesis by simp
    next
      case False
      with Cons.IH show ?thesis by simp
    qed
  qed
  then show ?thesis by (simp add: buildRow_def)
qed

lemma fieldStep_throwing: "throwing entry field \<Longrightarrow> fieldStep entry rowId field row = Inr row"
  using fieldBody_throwing [of entry field rowId row]
  by (auto simp: fieldStep_def isl_def)

lemma fieldStep_ok:
  "\<not> throwing entry field \<Longrightarrow>
     fieldStep entry rowId field row = fieldBody entry rowId field row \<and>
     \<not> isl (fieldBody entry rowId field row)"
  using fieldBody_ok [of entry field rowId row]
  by (auto simp: fieldStep_def)

lemma length_dropNulls_usable: "length (dropNulls (filter usable sels)) = length (filter usable sels)"
proof (induction sels)
  case Nil
  show ?case by simp
next
  case (Cons e sels)
  then show ?case by (cases e) (simp_all add: usable_None)
qed

lemma formatted_usable:
  "map Some (map formattedOf (dropNulls (filter usable sels))) =
     map (map_option formattedOf) (filter usable sels)"
proof (induction sels)
  case Nil
  show ?case by simp
next
  case (Cons e sels)
  then show ?case by (cases e) (simp_all add: usable_None)
qed

lemma formattedOf_usable:
  "tableId entry = Some t \<Longrightarrow> sheetName entry = Some s \<Longrightarrow> rowIds entry = Some rs \<Longrightarrow>
   sel_fields entry = Some fs \<Longrightarrow>
     formattedOf entry =
       \<lparr>fmt_id = sel_id entry, sheet = s, table = t, fmt_timestamp = timestamp entry,
        rowCount = length rs, columnCount = length fs, headers = sel_headers entry,
        data = Some (map (buildRow entry fs) rs)\<rparr>"
  by (simp add: formattedOf_def orEmpty_def)

lemma buildRow_Nil: "buildRow entry [] rowId = plain [(''rowId'', rowIdValue rowId)]"
  by (simp add: buildRow_def)

lemma buildRow_snoc:
  "buildRow entry (fs @ [f]) rowId =
     (case fieldBody entry rowId f (buildRow entry fs rowId) of
        Inl e \<Rightarrow> buildRow entry fs rowId | Inr row' \<Rightarrow> row')"
  unfolding buildRow_def by simp

text \<open>
  Claim C8. The formatter returns a list for every collection, never an exception: its
  result holds, in order, one formatted entry for each usable element of the collection
  and nothing else, where an element is usable unless it is \<open>null\<close> or lacks a table id, a
  sheet name, row ids or fields. The formatted entry of a usable element carries its id,
  sheet, table, time, counts and headers, and one row per row id. A row starts as the
  object with the row id and takes the fields in order: a field whose reads succeed
  assigns its value (or \<open>null\<close> when that is falsy) under its label, a field whose reads
  throw is caught and leaves the row as it was, the other fields being applied as if the
  throwing one were not there.
\<close>

theorem formatter_never_throws:
  "(\<exists>out. getFormattedData sels = Inr out
        \<and> map Some out = map (map_option formattedOf) (filter usable sels)
        \<and> length out = length (filter usable sels))
   \<and> \<not> usable None
   \<and> (usable (Some entry) \<longleftrightarrow>
         tableId entry \<noteq> None \<and> tableId entry \<noteq> Some [] \<and>
         sheetName entry \<noteq> None \<and> sheetName entry \<noteq> Some [] \<and>
         rowIds entry \<noteq> None \<and> sel_fields entry \<noteq> None)
   \<and> (\<not> usable entryOpt \<longrightarrow> formatEntry entryOpt = Inr None)
   \<and> (usable (Some entry) \<longrightarrow> formatEntry (Some entry) = Inr (Some (formattedOf entry)))
   \<and> (tableId entry = Some t \<and> sheetName entry = Some s \<and> rowIds entry = Some rs \<and>
       sel_fields entry = Some fs' \<longrightarrow>
         formattedOf entry =
           \<lparr>fmt_id = sel_id entry, sheet = s, table = t, fmt_timestamp = timestamp entry,
            rowCount = length rs, columnCount = length fs', headers = sel_headers entry,
            data = Some (map (buildRow entry fs') rs)\<rparr>)
   \<and> formatRow entry fs rowId = Inr (buildRow entry fs rowId)
   \<and> buildRow entry [] rowId = plain [(''rowId'', rowIdValue rowId)]
   \<and> buildRow entry (fs @ [field]) rowId =
        (case fieldBody entry rowId field (buildRow entry fs rowId) of
           Inl e \<Rightarrow> buildRow entry fs rowId | Inr row' \<Rightarrow> row')
   \<and> (throwing entry field \<longrightarrow>
         isl (fieldBody entry rowId field row) \<and> fieldStep entry rowId field row = Inr row)
   \<and> (\<not> throwing entry field \<longrightarrow>
         \<not> isl (fieldBody entry rowId field row) \<and>
         fieldStep entry rowId field row = fieldBody entry rowId field row \<and>
         (\<exists>colId header cd. colId_peek field = Inr colId \<and> label_peek field = Inr header \<and>
            cellData entry = Some cd \<and>
            fieldBody entry rowId field row =
              Inr (obj_set row header (js_or (cellOf cd rowId colId) JNull))))
   \<and> buildRow entry fs rowId = buildRow entry (filter (\<lambda>f. \<not> throwing entry f) fs) rowId
   \<and> (throwing entry field \<longrightarrow>
         buildRow entry (fs1 @ field # fs2) rowId = buildRow entry (fs1 @ fs2) rowId)"
proof (intro conjI impI)
  show "\<exists>out. getFormattedData sels = Inr out
        \<and> map Some out = map (map_option formattedOf) (filter usable sels)
        \<and> length out = length (filter usable sels)"
    using getFormattedData_total [of sels] formatted_usable [of sels]
      length_dropNulls_usable [of sels]
    by simp
  show "\<not> usable None" by (rule usable_None)
  show "usable (Some entry) \<longleftrightarrow>
         tableId entry \<noteq> None \<and> tableId entry \<noteq> Some [] \<and>
         sheetName entry \<noteq> None \<and> sheetName entry \<noteq> Some [] \<and>
         rowIds entry \<noteq> None \<and> sel_fields entry \<noteq> None"
    by (rule usable_Some)
  show "formatEntry entryOpt = Inr None" if "\<not> usable entryOpt"
    using that by (rule formatEntry_unusable)
  show "formatEntry (Some entry) = Inr (Some (formattedOf entry))" if "usable (Some entry)"
    using that by (rule formatEntry_usable)
  show "formattedOf entry =
           \<lparr>fmt_id = sel_id entry, sheet = s, table = t, fmt_timestamp = timestamp entry,
            rowCount = length rs, columnCount = length fs', headers = sel_headers entry,
            data = Some (map (buildRow entry fs') rs)\<rparr>"
    if "tableId entry = Some t \<and> sheetName entry = Some s \<and> rowIds entry = Some rs \<and>
       sel_fields entry = Some fs'"
    using that by (intro formattedOf_usable) simp_all
  show "formatRow entry fs rowId = Inr (buildRow entry fs rowId)"
    by (rule formatRow_buildRow)
  show "buildRow entry [] rowId = plain [(''rowId'', rowIdValue rowId)]"
    by (rule buildRow_Nil)
  show "buildRow entry (fs @ [field]) rowId =
        (case fieldBody entry rowId field (buildRow entry fs rowId) of
           Inl e \<Rightarrow> buildRow entry fs rowId | Inr row' \<Rightarrow> row')"
    by (rule buildRow_snoc)
  show "isl (fieldBody entry rowId field row)" if "throwing entry field"
    using that by (rule fieldBody_throwing)
  show "fieldStep entry rowId field row = Inr row" if "throwing entry field"
    using that by (rule fieldStep_throwing)
  show "\<not> isl (fieldBody entry rowId field row)" if "\<not> throwing entry field"
    using fieldStep_ok [OF that] by simp
  show "fieldStep entry rowId field row = fieldBody entry rowId field row"
    if "\<not> throwing entry field"
    using fieldStep_ok [OF that] by simp
  show "\<exists>colId header cd. colId_peek field = Inr colId \<and> label_peek field = Inr header \<and>
            cellData entry = Some cd \<and>
            fieldBody entry rowId field row =
              Inr (obj_set row header (js_or (cellOf cd rowId colId) JNull))"
    if "\<not> throwing entry field"
    using that by (rule fieldBody_ok)
  show "buildRow entry fs rowId = buildRow entry (filter (\<lambda>f. \<not> throwing entry f) fs) rowId"
    by (rule buildRow_skip)
  show "buildRow entry (fs1 @ field # fs2) rowId = buildRow entry (fs1 @ fs2) rowId"
    if "throwing entry field"
    using that buildRow_skip [of entry "fs1 @ field # fs2" rowId]
      buildRow_skip [of entry "fs1 @ fs2" rowId] by simp
qed

theorem formatter_never_throws_witness:
  "getFormattedData
     [Some (captured ''a'' ''T'' [fieldRec ''c1'' ''H''] [RowNum 1]
              [(RowNum 1, plain [(''c1'', JStr ''x'')])]),
      None,
      Some ((captured ''b'' ''T'' [] [] [])\<lparr>tableId := None\<rparr>),
      Some (captured ''c'' ''U''
             [fieldRec ''c1'' ''H'',
              \<lparr>colId_peek = Inl (HostError ''disposed''), label_peek = Inr ''K''\<rparr>,
              fieldRec ''c3'' ''L'']
             [RowNum 1, RowNum 2]
             [(RowNum 1, plain [(''c1'', JStr ''x''), (''c3'', JStr ''z'')])]),
      Some ((captured ''d'' ''V'' [] [] [])\<lparr>sheetName := Some ''''\<rparr>),
      Some (captured ''e'' ''W'' [] [RowNew] [])]
   = Inr [\<lparr>fmt_id = ''a'', sheet = ''T'', table = ''T'', fmt_timestamp = 0, rowCount = 1,
           columnCount = 1, headers = Some [''H''],
           data = Some [plain [(''rowId'', JNum 1), (''H'', JStr ''x'')]]\<rparr>,
          \<lparr>fmt_id = ''c'', sheet = ''U'', table = ''U'', fmt_timestamp = 0, rowCount = 2,
           columnCount = 3, headers = Some [''H'', ''K'', ''L''],
           data = Some [plain [(''rowId'', JNum 1), (''H'', JStr ''x''), (''L'', JStr ''z'')],
                        plain [(''rowId'', JNum 2), (''H'', JNull), (''L'', JNull)]]\<rparr>,
          \<lparr>fmt_id = ''e'', sheet = ''W'', table = ''W'', fmt_timestamp = 0, rowCount = 1,
           columnCount = 0, headers = Some [],
           data = Some [plain [(''rowId'', JStr ''new'')]]\<rparr>]"
proof -
  let ?sels = "[Some (captured ''a'' ''T'' [fieldRec ''c1'' ''H''] [RowNum 1]
              [(RowNum 1, plain [(''c1'', JStr ''x'')])]),
      None,
      Some ((captured ''b'' ''T'' [] [] [])\<lparr>tableId := None\<rparr>),
      Some (captured ''c'' ''U''
             [fieldRec ''c1'' ''H'',
              \<lparr>colId_peek = Inl (HostError ''disposed''), label_peek = Inr ''K''\<rparr>,
              fieldRec ''c3'' ''L'']
             [RowNum 1, RowNum 2]
             [(RowNum 1, plain [(''c1'', JStr ''x''), (''c3'', JStr ''z'')])]),
      Some ((captured ''d'' ''V'' [] [] [])\<lparr>sheetName := Some ''''\<rparr>),
      Some (captured ''e'' ''W'' [] [RowNew] [])]"
  let ?out = "[\<lparr>fmt_id = ''a'', sheet = ''T'', table = ''T'', fmt_timestamp = 0, rowCount = 1,
           columnCount = 1, headers = Some [''H''],
           data = Some [plain [(''rowId'', JNum 1), (''H'', JStr ''x'')]]\<rparr>,
          \<lparr>fmt_id = ''c'', sheet = ''U'', table = ''U'', fmt_timestamp = 0, rowCount = 2,
           columnCount = 3, headers = Some [''H'', ''K'', ''L''],
           data = Some [plain [(''rowId'', JNum 1), (''H'', JStr ''x''), (''L'', JStr ''z'')],
                        plain [(''rowId'', JNum 2), (''H'', JNull), (''L'', JNull)]]\<rparr>,
          \<lparr>fmt_id = ''e'', sheet = ''W'', table = ''W'', fmt_timestamp = 0, rowCount = 1,
           columnCount = 0, headers = Some [],
           data = Some [plain [(''rowId'', JStr ''new'')]]\<rparr>]"
  have e: "map (map_option formattedOf) (filter usable ?sels) = map Some ?out"
    by code_simp
  obtain out where o: "getFormattedData ?sels = Inr out"
    and m: "map Some out = map (map_option formattedOf) (filter usable ?sels)"
    using formatter_never_throws [of ?sels, THEN conjunct1]
    by (elim exE conjE) (rule that)
  from m e have "map Some out = map Some ?out" by simp
  then have "out = ?out" by (simp only: inj_map_eq_map [OF inj_Some])
  with o show ?thesis by simp
qed

lemma removeSelection_filter:
  "None \<notin> set sels \<Longrightarrow> removeSelection i sels = Inr (filter (\<lambda>e. \<not> hasId i e) sels)"
proof (induction sels)
  case Nil
  show ?case by simp
next
  case (Cons e sels)
  then obtain entry where e: "e = Some entry" by (cases e) auto
  from Cons have "removeSelection i sels = Inr (filter (\<lambda>e. \<not> hasId i e) sels)" by simp
  with e show ?case by (simp add: hasId_def)
qed

text \<open>
  Claim C9. On a collection of entries (none of them \<open>null\<close>), \<open>removeSelection\<close> returns
  the collection without the entries of the given id: nothing of that id remains, every
  other entry stays, in the same relative order; the collection is unchanged when no
  entry has the id; and when exactly one entry has it, the result is what stood before
  it followed by what stood after it.
\<close>

theorem remove_selection:
  "None \<notin> set sels \<longrightarrow>
     (\<exists>out. removeSelection i sels = Inr out
        \<and> out = filter (\<lambda>e. \<not> hasId i e) sels
        \<and> (\<forall>e \<in> set out. \<not> hasId i e)
        \<and> (\<forall>e. e \<in> set sels \<and> \<not> hasId i e \<longrightarrow> e \<in> set out)
        \<and> subseq out sels
        \<and> ((\<forall>e \<in> set sels. \<not> hasId i e) \<longrightarrow> out = sels)
        \<and> (\<forall>before entry after. sels = before @ Some entry # after \<and> sel_id entry = i \<and>
              (\<forall>e \<in> set before. \<not> hasId i e) \<and> (\<forall>e \<in> set after. \<not> hasId i e) \<longrightarrow>
              out = before @ after))"
proof
  assume nn: "None \<notin> set sels"
  let ?out = "filter (\<lambda>e. \<not> hasId i e) sels"
  have a: "removeSelection i sels = Inr ?out" by (rule removeSelection_filter [OF nn])
  have b: "\<forall>e \<in> set ?out. \<not> hasId i e" by simp
  have c: "\<forall>e. e \<in> set sels \<and> \<not> hasId i e \<longrightarrow> e \<in> set ?out" by simp
  have d: "subseq ?out sels" by simp
  have e: "(\<forall>e \<in> set sels. \<not> hasId i e) \<longrightarrow> ?out = sels" by simp
  have f: "\<forall>before entry after. sels = before @ Some entry # after \<and> sel_id entry = i \<and>
              (\<forall>e \<in> set before. \<not> hasId i e) \<and> (\<forall>e \<in> set after. \<not> hasId i e) \<longrightarrow>
              ?out = before @ after"
    by (auto simp: hasId_def)
  from a b c d e f
  show "\<exists>out. removeSelection i sels = Inr out
        \<and> out = filter (\<lambda>e. \<not> hasId i e) sels
        \<and> (\<forall>e \<in> set out. \<not> hasId i e)
        \<and> (\<forall>e. e \<in> set sels \<and> \<not> hasId i e \<longrightarrow> e \<in> set out)
        \<and> subseq out sels
        \<and> ((\<forall>e \<in> set sels. \<not> hasId i e) \<longrightarrow> out = sels)
        \<and> (\<forall>before entry after. sels = before @ Some entry # after \<and> sel_id entry = i \<and>
              (\<forall>e \<in> set before. \<not> hasId i e) \<and> (\<forall>e \<in> set after. \<not> hasId i e) \<longrightarrow>
              out = before @ after)"
    by blast
qed

theorem remove_selection_witness:
  "None \<notin> set [Some (captured ''a'' ''T'' [] [] []), Some (captured ''b'' ''U'' [] [] []),
                 Some (captured ''c'' ''V'' [] [] [])]
   \<and> removeSelection ''b'' [Some (captured ''a'' ''T'' [] [] []), Some (captured ''b'' ''U'' [] [] []),
                 Some (captured ''c'' ''V'' [] [] [])]
       = Inr [Some (captured ''a'' ''T'' [] [] []), Some (captured ''c'' ''V'' [] [] [])]
   \<and> removeSelection ''z'' [Some (captured ''a'' ''T'' [] [] []), Some (captured ''b'' ''U'' [] [] []),
                 Some (captured ''c'' ''V'' [] [] [])]
       = Inr [Some (captured ''a'' ''T'' [] [] []), Some (captured ''b'' ''U'' [] [] []),
                 Some (captured ''c'' ''V'' [] [] [])]"
proof -
  let ?a = "Some (captured ''a'' ''T'' [] [] [])"
  let ?b = "Some (captured ''b'' ''U'' [] [] [])"
  let ?c = "Some (captured ''c'' ''V'' [] [] [])"
  have nn: "None \<notin> set [?a, ?b, ?c]" by simp
  have f1: "filter (\<lambda>e. \<not> hasId ''b'' e) [?a, ?b, ?c] = [?a, ?c]"
    by (simp add: hasId_def captured_def)
  have f2: "filter (\<lambda>e. \<not> hasId ''z'' e) [?a, ?b, ?c] = [?a, ?b, ?c]"
    by (simp add: hasId_def captured_def)
  obtain out1 where "removeSelection ''b'' [?a, ?b, ?c] = Inr out1"
    and "out1 = filter (\<lambda>e. \<not> hasId ''b'' e) [?a, ?b, ?c]"
    using remove_selection [of "[?a, ?b, ?c]" "''b''", THEN mp, OF nn]
    by (elim exE conjE) (rule that)
  with f1 have r1: "removeSelection ''b'' [?a, ?b, ?c] = Inr [?a, ?c]" by simp
  obtain out2 where "removeSelection ''z'' [?a, ?b, ?c] = Inr out2"
    and "out2 = filter (\<lambda>e. \<not> hasId ''z'' e) [?a, ?b, ?c]"
    using remove_selection [of "[?a, ?b, ?c]" "''z''", THEN mp, OF nn]
    by (elim exE conjE) (rule that)
  with f2 have r2: "removeSelection ''z'' [?a, ?b, ?c] = Inr [?a, ?b, ?c]" by simp
  from nn r1 r2 show ?thesis by blast
qed

section \<open>Properties of creating the sheet from the store\<close>

text \<open>
  Claim C6, amended. After \<open>clearSelections\<close> the formatter returns the empty list, and
  creating a sheet from the store returns without an error and changes nothing: the
  dialog is not opened, no action is sent, the store and the document are as before. The
  merger called on the empty list would fail with the error the spec calls
  \<open>NoDataError\<close>, but the store never calls it then.
\<close>

theorem cleared_store:
  "getFormattedData (clearSelections sels) = Inr []
   \<and> storeCreateNewSheet api user (clearSelections sels, d)
        = (Inr (), (clearSelections sels, d))
   \<and> newlySent d (snd (snd (storeCreateNewSheet api user (clearSelections sels, d)))) = []
   \<and> convertGlobalSelectionData [] = Inl NoFormattedData
   \<and> is_NoDataError NoFormattedData"
proof -
  have f: "getFormattedData (clearSelections sels) = Inr []"
    by (simp add: getFormattedData_def clearSelections_def)
  have s: "storeCreateNewSheet api user (clearSelections sels, d)
        = (Inr (), (clearSelections sels, d))"
    by (simp add: storeCreateNewSheet_def f)
  have n: "newlySent d (snd (snd (storeCreateNewSheet api user (clearSelections sels, d)))) = []"
    by (simp add: s newlySent_def)
  have c: "convertGlobalSelectionData [] = Inl NoFormattedData"
    by (simp add: convertGlobalSelectionData_def)
  from f s n c show ?thesis by (simp add: is_NoDataError_def)
qed

theorem cleared_store_witness:
  "fst (storeCreateNewSheet (sampleApi id) acceptSuggested
          ([Some (captured ''a'' ''T'' [fieldRec ''c1'' ''H''] [RowNum 1]
                    [(RowNum 1, plain [(''c1'', JStr ''x'')])])], emptyDoc)) = Inr ()
   \<and> sent (snd (snd (storeCreateNewSheet (sampleApi id) acceptSuggested
          ([Some (captured ''a'' ''T'' [fieldRec ''c1'' ''H''] [RowNum 1]
                    [(RowNum 1, plain [(''c1'', JStr ''x'')])])], emptyDoc))))
       = [AddTable ''GlobalSelections'' [mkColumn ''T_H''],
          BulkAddRecord ''GlobalSelections'' [JNull] [(''T_H'', [JStr ''x''])]]
   \<and> storeCreateNewSheet (sampleApi id) acceptSuggested
        (clearSelections [Some (captured ''a'' ''T'' [fieldRec ''c1'' ''H''] [RowNum 1]
                    [(RowNum 1, plain [(''c1'', JStr ''x'')])])], emptyDoc)
       = (Inr (), ([], emptyDoc))"
proof -
  let ?sels = "[Some (captured ''a'' ''T'' [fieldRec ''c1'' ''H''] [RowNum 1]
                    [(RowNum 1, plain [(''c1'', JStr ''x'')])])]"
  have a: "fst (storeCreateNewSheet (sampleApi id) acceptSuggested (?sels, emptyDoc)) = Inr ()"
    by code_simp
  have b: "sent (snd (snd (storeCreateNewSheet (sampleApi id) acceptSuggested (?sels, emptyDoc))))
       = [AddTable ''GlobalSelections'' [mkColumn ''T_H''],
          BulkAddRecord ''GlobalSelections'' [JNull] [(''T_H'', [JStr ''x''])]]"
    by code_simp
  from cleared_store [of ?sels "sampleApi id" acceptSuggested emptyDoc]
  have c: "storeCreateNewSheet (sampleApi id) acceptSuggested (clearSelections ?sels, emptyDoc)
       = (Inr (), (clearSelections ?sels, emptyDoc))"
    by blast
  from a b c show ?thesis by (simp add: clearSelections_def)
qed

theorem cleared_store_counterexample:
  "getFormattedData (clearSelections
       [Some (captured ''a'' ''T'' [fieldRec ''c1'' ''H''] [RowNum 1]
                [(RowNum 1, plain [(''c1'', JStr ''x'')])])]) = Inr []
   \<and> storeCreateNewSheet (sampleApi id) acceptSuggested
        (clearSelections [Some (captured ''a'' ''T'' [fieldRec ''c1'' ''H''] [RowNum 1]
                    [(RowNum 1, plain [(''c1'', JStr ''x'')])])], emptyDoc)
       = (Inr (), ([], emptyDoc))"
  by code_simp


















end
